theory Spec2Isabelle
  imports Main
begin

section \<open>JavaScript values and JSON\<close>

text \<open>
  The publisher and the four consumers exchange plain JavaScript data. A value is
  \<open>undefined\<close>, \<open>null\<close>, a boolean, a number, a string, an array or an object whose own
  enumerable properties are listed in the order JavaScript enumerates them. A finite number is written by its
  decimal literal (the result of \<open>Number.prototype.toString\<close>), so \<open>-0\<close> and \<open>0\<close>
  are the same value here, as they are for \<open>===\<close>.
\<close>

datatype jsnum = NaN | PosInfinity | NegInfinity | Finite string

datatype jsval =
    JUndefined
  | JNull
  | JBool bool
  | JNum jsnum
  | JStr string
  | JArr "jsval list"
  | JObj "(string \<times> jsval) list"

text \<open>
  A JSON text is kept as its document: the members of an object in the order of the
  text, repeated names included. A number literal is kept as the number \<open>JSON.parse\<close>
  reads from it: \<open>Denotes s\<close> for the finite double whose decimal form is \<open>s\<close> (the
  double nearest to the literal), \<open>Overflows\<close> and \<open>OverflowsNegative\<close> for a literal
  beyond the range of the doubles, which is read as an infinity. The bytes of a message
  or of a file are either such a text or something \<open>JSON.parse\<close> rejects.
\<close>

datatype json_number = Denotes string | Overflows | OverflowsNegative

datatype json =
    JsonNull
  | JsonBool bool
  | JsonNum json_number
  | JsonStr string
  | JsonArr "json list"
  | JsonObj "(string \<times> json) list"

datatype buffer = JsonText json | Malformed

datatype error =
    TypeError
  | SyntaxError
  | IllegalOperationError
  | ENOENT
  | EIO
  | ENOSPC
  | NOT_FOUND
  | PRECONDITION_FAILED
  | UnsupportedExchangeType

text \<open>A statement either completes or throws; its effects up to the throw stay.\<close>

datatype completion = Normal | Throw error

definition nullish :: "jsval \<Rightarrow> bool" where
  "nullish v = (v = JUndefined \<or> v = JNull)"

text \<open>
  Property read \<open>v.k\<close>: a \<open>TypeError\<close> on \<open>undefined\<close> and \<open>null\<close>, the own
  property of an object, \<open>undefined\<close> otherwise. It is used only with the property
  names of this program (\<open>action\<close>, \<open>userId\<close>, \<open>timestamp\<close>, \<open>data\<close>, \<open>device\<close>,
  \<open>productId\<close>, \<open>amount\<close>, \<open>field\<close>), none of which a built-in prototype defines.
\<close>

definition GetV :: "jsval \<Rightarrow> string \<Rightarrow> error + jsval" where
  "GetV v k =
     (if nullish v then Inl TypeError
      else case v of
          JObj kvs \<Rightarrow> (case map_of kvs k of None \<Rightarrow> Inr JUndefined | Some w \<Rightarrow> Inr w)
        | _ \<Rightarrow> Inr JUndefined)"

text \<open>A chain of property reads such as \<open>action.data.productId\<close>.\<close>

fun get_path :: "jsval \<Rightarrow> string list \<Rightarrow> error + jsval" where
  "get_path v [] = Inr v"
| "get_path v (k # ks) = (case GetV v k of Inl e \<Rightarrow> Inl e | Inr w \<Rightarrow> get_path w ks)"

fun join :: "string \<Rightarrow> string list \<Rightarrow> string" where
  "join sep [] = []"
| "join sep [s] = s"
| "join sep (s # t # ss) = s @ sep @ join sep (t # ss)"

text \<open>
  String conversion, as a template literal or a computed property key applies it. An
  array is the join of its elements, where \<open>undefined\<close> and \<open>null\<close> give the empty
  string; an object gives \<open>[object Object]\<close>. An object that has an own property
  \<open>toString\<close> cannot be converted, since that property holds data and cannot be called:
  the conversion throws a \<open>TypeError\<close>.
\<close>

primrec printable :: "jsval \<Rightarrow> bool" where
  "printable JUndefined = True"
| "printable JNull = True"
| "printable (JBool b) = True"
| "printable (JNum n) = True"
| "printable (JStr s) = True"
| "printable (JArr xs) = list_all (\<lambda>b. b) (map printable xs)"
| "printable (JObj kvs) = (''toString'' \<notin> set (map fst kvs))"

fun string_of :: "jsval \<Rightarrow> string" where
  "string_of JUndefined = ''undefined''"
| "string_of JNull = ''null''"
| "string_of (JBool b) = (if b then ''true'' else ''false'')"
| "string_of (JNum NaN) = ''NaN''"
| "string_of (JNum PosInfinity) = ''Infinity''"
| "string_of (JNum NegInfinity) = ''-Infinity''"
| "string_of (JNum (Finite s)) = s"
| "string_of (JStr s) = s"
| "string_of (JArr xs) = join '','' (map (\<lambda>x. if nullish x then [] else string_of x) xs)"
| "string_of (JObj kvs) = ''[object Object]''"

definition ToString :: "jsval \<Rightarrow> error + string" where
  "ToString v = (if printable v then Inr (string_of v) else Inl TypeError)"

definition ToPropertyKey :: "jsval \<Rightarrow> error + string" where
  "ToPropertyKey v = ToString v"

text \<open>The text of a substitution \<open>${v.k1.k2}\<close> in a template literal.\<close>

definition template :: "jsval \<Rightarrow> string list \<Rightarrow> error + string" where
  "template v path = (case get_path v path of Inl e \<Rightarrow> Inl e | Inr w \<Rightarrow> ToString w)"

subsection \<open>\<open>JSON.stringify\<close> and \<open>JSON.parse\<close>\<close>

text \<open>
  \<open>JSON.stringify\<close> yields no text for \<open>undefined\<close>, writes \<open>null\<close> for a number
  that is not finite and for an \<open>undefined\<close> array element, and leaves out a property
  whose value is \<open>undefined\<close>.
\<close>

definition undefined_to_null :: "json option \<Rightarrow> json" where
  "undefined_to_null r = (case r of None \<Rightarrow> JsonNull | Some j \<Rightarrow> j)"

fun defined_members :: "(string \<times> json option) list \<Rightarrow> (string \<times> json) list" where
  "defined_members [] = []"
| "defined_members ((k, None) # ps) = defined_members ps"
| "defined_members ((k, Some j) # ps) = (k, j) # defined_members ps"

primrec JSON_stringify :: "jsval \<Rightarrow> json option" where
  "JSON_stringify JUndefined = None"
| "JSON_stringify JNull = Some JsonNull"
| "JSON_stringify (JBool b) = Some (JsonBool b)"
| "JSON_stringify (JNum n) =
     (case n of Finite s \<Rightarrow> Some (JsonNum (Denotes s)) | _ \<Rightarrow> Some JsonNull)"
| "JSON_stringify (JStr s) = Some (JsonStr s)"
| "JSON_stringify (JArr xs) = Some (JsonArr (map undefined_to_null (map JSON_stringify xs)))"
| "JSON_stringify (JObj kvs) =
     Some (JsonObj (defined_members (map (map_prod id JSON_stringify) kvs)))"

text \<open>
  \<open>JSON.parse\<close> creates the members of an object one after the other; a repeated name
  keeps its first position and takes the last value. JavaScript then lists the
  properties of the object with the array indices first, in ascending order, and the
  other names after them in creation order. An array index is the decimal form,
  without superfluous zeros, of a number below \<open>2^32 - 1\<close>.
\<close>

fun put_prop :: "(string \<times> 'a) list \<Rightarrow> string \<times> 'a \<Rightarrow> (string \<times> 'a) list" where
  "put_prop [] kv = [kv]"
| "put_prop ((k', v') # ps) kv =
     (if k' = fst kv then (k', snd kv) # ps else (k', v') # put_prop ps kv)"

definition is_digit :: "char \<Rightarrow> bool" where
  "is_digit c = (c \<in> set ''0123456789'')"

definition digits_value :: "string \<Rightarrow> nat" where
  "digits_value s = foldl (\<lambda>n c. 10 * n + (of_char c - 48)) 0 s"

definition array_index :: "string \<Rightarrow> nat option" where
  "array_index s =
     (if s \<noteq> [] \<and> list_all is_digit s \<and> (s = ''0'' \<or> hd s \<noteq> CHR ''0'') \<and>
         digits_value s < 4294967295
      then Some (digits_value s) else None)"

definition is_index :: "string \<Rightarrow> bool" where
  "is_index k = (array_index k \<noteq> None)"

definition index_value :: "string \<Rightarrow> nat" where
  "index_value k = (case array_index k of None \<Rightarrow> 0 | Some n \<Rightarrow> n)"

definition own_property_order :: "(string \<times> 'a) list \<Rightarrow> (string \<times> 'a) list" where
  "own_property_order kvs =
     sort_key (\<lambda>kv. index_value (fst kv)) (filter (\<lambda>kv. is_index (fst kv)) kvs) @
     filter (\<lambda>kv. \<not> is_index (fst kv)) kvs"

definition object_of_members :: "(string \<times> 'a) list \<Rightarrow> (string \<times> 'a) list" where
  "object_of_members kvs = own_property_order (foldl put_prop [] kvs)"

primrec JSON_parse :: "json \<Rightarrow> jsval" where
  "JSON_parse JsonNull = JNull"
| "JSON_parse (JsonBool b) = JBool b"
| "JSON_parse (JsonNum n) =
     (case n of
          Denotes s \<Rightarrow> JNum (Finite s)
        | Overflows \<Rightarrow> JNum PosInfinity
        | OverflowsNegative \<Rightarrow> JNum NegInfinity)"
| "JSON_parse (JsonStr s) = JStr s"
| "JSON_parse (JsonArr xs) = JArr (map JSON_parse xs)"
| "JSON_parse (JsonObj kvs) = JObj (object_of_members (map (map_prod id JSON_parse) kvs))"

text \<open>\<open>JSON.parse(msg.content.toString())\<close>: a \<open>SyntaxError\<close> on bytes that are no JSON text.\<close>

definition parse_content :: "buffer \<Rightarrow> error + jsval" where
  "parse_content b = (case b of Malformed \<Rightarrow> Inl SyntaxError | JsonText d \<Rightarrow> Inr (JSON_parse d))"

text \<open>
  The values JSON carries unchanged: no \<open>undefined\<close>, no number that is not finite,
  inside arrays and objects too. The property names of one object are distinct and
  listed in the order JavaScript enumerates them, as they are for every JavaScript
  object.
\<close>

definition enumeration_order :: "string list \<Rightarrow> bool" where
  "enumeration_order ks =
     (sorted (map index_value (takeWhile is_index ks)) \<and>
      list_all (\<lambda>k. \<not> is_index k) (dropWhile is_index ks))"

primrec json_safe :: "jsval \<Rightarrow> bool" where
  "json_safe JUndefined = False"
| "json_safe JNull = True"
| "json_safe (JBool b) = True"
| "json_safe (JNum n) = (case n of Finite s \<Rightarrow> True | _ \<Rightarrow> False)"
| "json_safe (JStr s) = True"
| "json_safe (JArr xs) = list_all (\<lambda>b. b) (map json_safe xs)"
| "json_safe (JObj kvs) =
     (distinct (map fst kvs) \<and> enumeration_order (map fst kvs) \<and>
      list_all (\<lambda>b. b) (map snd (map (map_prod id json_safe) kvs)))"

section \<open>Configuration (\<open>config.js\<close>)\<close>

record rabbit_config =
  url :: string
  exchange_name :: string
  exchange_type :: string
  exchange_durable :: bool
  queues :: "(string \<times> string) list"

definition config :: rabbit_config where
  "config =
     \<lparr> url = ''amqp://localhost'',
       exchange_name = ''user.actions'',
       exchange_type = ''fanout'',
       exchange_durable = True,
       queues =
         [(''analytics'', ''analytics.queue''),
          (''notification'', ''notification.queue''),
          (''audit'', ''audit.queue''),
          (''cache'', ''cache.invalidation.queue'')] \<rparr>"

definition Object_values :: "(string \<times> 'a) list \<Rightarrow> 'a list" where
  "Object_values kvs = map snd kvs"

section \<open>The broker behind \<open>amqplib\<close>\<close>

text \<open>
  The broker holds declared exchanges, declared queues with their buffered messages, and
  bindings (queue, exchange, binding key). Declarations are idempotent and fail on a
  conflicting redeclaration; a binding needs both ends to exist. A fanout exchange
  routes a message to every queue bound to it, whatever the keys; a direct exchange to
  the queues bound with the routing key. Exchanges of other types are not modelled.
\<close>

record amqp_message =
  content :: buffer
  persistent :: bool
  contentType :: string

record exchange_decl =
  ex_type :: string
  ex_durable :: bool

record queue_state =
  q_durable :: bool
  messages :: "amqp_message list"

record broker =
  b_exchanges :: "string \<rightharpoonup> exchange_decl"
  b_queues :: "string \<rightharpoonup> queue_state"
  b_bindings :: "(string \<times> string \<times> string) list"

definition assertExchange :: "broker \<Rightarrow> string \<Rightarrow> string \<Rightarrow> bool \<Rightarrow> error + broker" where
  "assertExchange b name type durable =
     (if type \<noteq> ''fanout'' \<and> type \<noteq> ''direct'' then Inl UnsupportedExchangeType
      else case b_exchanges b name of
          None \<Rightarrow>
            Inr (b\<lparr>b_exchanges := (b_exchanges b)(name \<mapsto> \<lparr>ex_type = type, ex_durable = durable\<rparr>)\<rparr>)
        | Some d \<Rightarrow>
            if ex_type d = type \<and> ex_durable d = durable then Inr b
            else Inl PRECONDITION_FAILED)"

definition assertQueue :: "broker \<Rightarrow> string \<Rightarrow> bool \<Rightarrow> error + broker" where
  "assertQueue b q durable =
     (case b_queues b q of
          None \<Rightarrow> Inr (b\<lparr>b_queues := (b_queues b)(q \<mapsto> \<lparr>q_durable = durable, messages = []\<rparr>)\<rparr>)
        | Some s \<Rightarrow> if q_durable s = durable then Inr b else Inl PRECONDITION_FAILED)"

definition bindQueue :: "broker \<Rightarrow> string \<Rightarrow> string \<Rightarrow> string \<Rightarrow> error + broker" where
  "bindQueue b q ex key =
     (if b_queues b q = None \<or> b_exchanges b ex = None then Inl NOT_FOUND
      else Inr (b\<lparr>b_bindings := List.insert (q, ex, key) (b_bindings b)\<rparr>))"

definition route :: "broker \<Rightarrow> string \<Rightarrow> string \<Rightarrow> string list" where
  "route b ex key =
     (case b_exchanges b ex of
          None \<Rightarrow> []
        | Some d \<Rightarrow>
            if ex_type d = ''fanout''
            then map fst (filter (\<lambda>(q, e, k). e = ex) (b_bindings b))
            else map fst (filter (\<lambda>(q, e, k). e = ex \<and> k = key) (b_bindings b)))"

definition enqueue :: "amqp_message \<Rightarrow> queue_state \<Rightarrow> queue_state" where
  "enqueue m s = s\<lparr>messages := messages s @ [m]\<rparr>"

text \<open>One publish: every routed queue takes one copy at its end, the others nothing.\<close>

definition basic_publish :: "broker \<Rightarrow> string \<Rightarrow> string \<Rightarrow> amqp_message \<Rightarrow> broker" where
  "basic_publish b ex key m =
     b\<lparr>b_queues :=
         (\<lambda>q. if q \<in> set (route b ex key) then map_option (enqueue m) (b_queues b q)
              else b_queues b q)\<rparr>"

section \<open>\<open>setup-exchange.js\<close>\<close>

text \<open>The loop over the configured queues: declare the queue, bind it with the empty key.\<close>

fun setup_queues :: "rabbit_config \<Rightarrow> broker \<Rightarrow> string list \<Rightarrow> error + broker" where
  "setup_queues cfg b [] = Inr b"
| "setup_queues cfg b (queue # rest) =
     (case assertQueue b queue True of
          Inl e \<Rightarrow> Inl e
        | Inr b1 \<Rightarrow>
            (case bindQueue b1 queue (exchange_name cfg) [] of
                 Inl e \<Rightarrow> Inl e
               | Inr b2 \<Rightarrow> setup_queues cfg b2 rest))"

text \<open>\<open>Inl\<close> is the \<open>catch\<close> branch, which ends the process with status 1.\<close>

definition setupExchange :: "rabbit_config \<Rightarrow> broker \<Rightarrow> error + broker" where
  "setupExchange cfg b =
     (case assertExchange b (exchange_name cfg) (exchange_type cfg) (exchange_durable cfg) of
          Inl e \<Rightarrow> Inl e
        | Inr b1 \<Rightarrow> setup_queues cfg b1 (Object_values (queues cfg)))"

section \<open>\<open>ActionPublisher\<close>\<close>

datatype channel_state = NoChannel | OpenChannel | ClosedChannel

record publisher =
  channel :: channel_state

definition ActionPublisher :: publisher where
  "ActionPublisher = \<lparr> channel = NoChannel \<rparr>"

definition connect :: "rabbit_config \<Rightarrow> publisher \<Rightarrow> broker \<Rightarrow> error + (publisher \<times> broker)" where
  "connect cfg pub b =
     (case assertExchange b (exchange_name cfg) (exchange_type cfg) (exchange_durable cfg) of
          Inl e \<Rightarrow> Inl e
        | Inr b1 \<Rightarrow> Inr (pub\<lparr>channel := OpenChannel\<rparr>, b1))"

definition close :: "publisher \<Rightarrow> error + publisher" where
  "close pub =
     (case channel pub of
          NoChannel \<Rightarrow> Inl TypeError
        | ClosedChannel \<Rightarrow> Inl IllegalOperationError
        | OpenChannel \<Rightarrow> Inr (pub\<lparr>channel := ClosedChannel\<rparr>))"

text \<open>
  \<open>publishAction(action, userId, data = {})\<close>. The argument \<open>now\<close> is the string
  \<open>new Date().toISOString()\<close> returns at the call; a \<open>data\<close> argument that is left out
  arrives as \<open>undefined\<close>. After the publish the method prints \<open>action\<close> and
  \<open>userId\<close> and returns the message. The result is the returned message, or the error
  thrown, together with the broker as the call leaves it.
\<close>

definition build_message :: "string \<Rightarrow> jsval \<Rightarrow> jsval \<Rightarrow> jsval \<Rightarrow> jsval" where
  "build_message now action userId data_arg =
     (let data = (if data_arg = JUndefined then JObj [] else data_arg)
      in JObj [(''action'', action), (''userId'', userId), (''timestamp'', JStr now),
               (''data'', data)])"

definition publishAction ::
  "rabbit_config \<Rightarrow> publisher \<Rightarrow> broker \<Rightarrow> string \<Rightarrow> jsval \<Rightarrow> jsval \<Rightarrow> jsval
     \<Rightarrow> (error + jsval) \<times> broker" where
  "publishAction cfg pub b now action userId data_arg =
     (let message = build_message now action userId data_arg
      in case channel pub of
          NoChannel \<Rightarrow> (Inl TypeError, b)
        | ClosedChannel \<Rightarrow> (Inl IllegalOperationError, b)
        | OpenChannel \<Rightarrow>
            (case JSON_stringify message of
                 None \<Rightarrow> (Inl TypeError, b)
               | Some text \<Rightarrow>
                   (let b1 = basic_publish b (exchange_name cfg) []
                               \<lparr>content = JsonText text, persistent = True,
                                contentType = ''application/json''\<rparr>
                    in case ToString action of
                         Inl e \<Rightarrow> (Inl e, b1)
                       | Inr a \<Rightarrow>
                           (case ToString userId of
                                Inl e \<Rightarrow> (Inl e, b1)
                              | Inr u \<Rightarrow> (Inr message, b1)))))"

text \<open>
  One run of the system as \<open>test-system.js\<close> drives it: set the exchange up on a
  broker, connect a new publisher, publish one action. The result is the returned
  message with the broker before and after the publish. \<open>parsed_copies\<close> is what the
  consumer of a queue obtains from \<open>JSON.parse\<close> for the messages buffered there.
\<close>

definition empty_broker :: broker where
  "empty_broker = \<lparr> b_exchanges = Map.empty, b_queues = Map.empty, b_bindings = [] \<rparr>"

definition broadcast ::
  "rabbit_config \<Rightarrow> broker \<Rightarrow> string \<Rightarrow> jsval \<Rightarrow> jsval \<Rightarrow> jsval
     \<Rightarrow> error + (jsval \<times> broker \<times> broker)" where
  "broadcast cfg b0 now action userId data_arg =
     (case setupExchange cfg b0 of
          Inl e \<Rightarrow> Inl e
        | Inr b1 \<Rightarrow>
            (case connect cfg ActionPublisher b1 of
                 Inl e \<Rightarrow> Inl e
               | Inr (pub, b2) \<Rightarrow>
                   (case publishAction cfg pub b2 now action userId data_arg of
                        (Inl e, b3) \<Rightarrow> Inl e
                      | (Inr message, b3) \<Rightarrow> Inr (message, b2, b3))))"

definition parsed_copies :: "broker \<Rightarrow> string \<Rightarrow> (error + jsval) list" where
  "parsed_copies b q =
     (case b_queues b q of
          None \<Rightarrow> []
        | Some s \<Rightarrow> map (\<lambda>m. parse_content (content m)) (messages s))"

definition published_record :: "error + (jsval \<times> broker \<times> broker) \<Rightarrow> error + jsval" where
  "published_record r = (case r of Inl e \<Rightarrow> Inl e | Inr (message, b2, b3) \<Rightarrow> Inr message)"

definition consumer_view :: "error + (jsval \<times> broker \<times> broker) \<Rightarrow> string \<Rightarrow> (error + jsval) list" where
  "consumer_view r q = (case r of Inl e \<Rightarrow> [] | Inr (message, b2, b3) \<Rightarrow> parsed_copies b3 q)"

section \<open>Consumers\<close>

text \<open>
  A consumer holds its channel's outstanding deliveries: a message handed to the
  callback stays there, and may be delivered again, until \<open>channel.ack\<close> removes it.
  The callback receives \<open>null\<close> (\<open>None\<close>) when the broker cancels the consumer.
\<close>

record delivery = amqp_message +
  deliveryTag :: nat

record consumer =
  unacked :: "delivery list"

definition channel_ack :: "'a consumer_scheme \<Rightarrow> delivery \<Rightarrow> 'a consumer_scheme" where
  "channel_ack st msg =
     st\<lparr>unacked := filter (\<lambda>d. deliveryTag d \<noteq> deliveryTag msg) (unacked st)\<rparr>"

subsection \<open>\<open>AnalyticsConsumer\<close>\<close>

text \<open>The counters of \<open>this.stats\<close>; the field \<open>total\<close> is named \<open>total_count\<close> here.\<close>

record stats =
  login :: nat
  purchase :: nat
  profile_update :: nat
  total_count :: nat

record analytics = consumer +
  stats :: stats

definition AnalyticsConsumer :: analytics where
  "AnalyticsConsumer =
     \<lparr> unacked = [], stats = \<lparr>login = 0, purchase = 0, profile_update = 0, total_count = 0\<rparr> \<rparr>"

definition hasOwnProperty :: "stats \<Rightarrow> string \<Rightarrow> bool" where
  "hasOwnProperty s key =
     (key = ''login'' \<or> key = ''purchase'' \<or> key = ''profile_update'' \<or> key = ''total'')"

text \<open>\<open>this.stats[key]++\<close> for a key the object has.\<close>

definition increment :: "stats \<Rightarrow> string \<Rightarrow> stats" where
  "increment s key =
     (if key = ''login'' then s\<lparr>login := login s + 1\<rparr>
      else if key = ''purchase'' then s\<lparr>purchase := purchase s + 1\<rparr>
      else if key = ''profile_update'' then s\<lparr>profile_update := profile_update s + 1\<rparr>
      else if key = ''total'' then s\<lparr>total_count := total_count s + 1\<rparr>
      else s)"

text \<open>
  \<open>processAction\<close>: the first line prints \<open>action.action\<close>, then the counters are
  updated, then \<open>action.userId\<close> and \<open>action.timestamp\<close> are printed. The last two
  lines print \<open>action.data\<close> and the counters with the inspector, which cannot fail.
\<close>

definition processAction :: "analytics \<Rightarrow> jsval \<Rightarrow> completion \<times> analytics" where
  "processAction st action =
     (case template action [''action''] of
          Inl e \<Rightarrow> (Throw e, st)
        | Inr line \<Rightarrow>
     (case GetV action ''action'' of
          Inl e \<Rightarrow> (Throw e, st)
        | Inr kind \<Rightarrow>
     (case ToPropertyKey kind of
          Inl e \<Rightarrow> (Throw e, st)
        | Inr key \<Rightarrow>
            (let s1 = (if hasOwnProperty (stats st) key then increment (stats st) key
                       else stats st);
                 s2 = increment s1 ''total'';
                 st1 = st\<lparr>stats := s2\<rparr>
             in case template action [''userId''] of
                  Inl e \<Rightarrow> (Throw e, st1)
                | Inr u \<Rightarrow>
                    (case template action [''timestamp''] of
                         Inl e \<Rightarrow> (Throw e, st1)
                       | Inr t \<Rightarrow> (Normal, st1))))))"

definition AnalyticsConsumer_consume ::
  "analytics \<Rightarrow> delivery option \<Rightarrow> completion \<times> analytics" where
  "AnalyticsConsumer_consume st msg =
     (case msg of
          None \<Rightarrow> (Normal, st)
        | Some m \<Rightarrow>
            (case parse_content (content m) of
                 Inl e \<Rightarrow> (Throw e, st)
               | Inr action \<Rightarrow>
                   (case processAction st action of
                        (Throw e, st1) \<Rightarrow> (Throw e, st1)
                      | (Normal, st1) \<Rightarrow> (Normal, channel_ack st1 m))))"

subsection \<open>\<open>NotificationConsumer\<close>\<close>

text \<open>
  The notifications are console lines; the model keeps them, with the texts printed
  into them, as the list \<open>sent\<close>.
\<close>

datatype notice =
    LoginAlertEmail string
  | PushNotification string
  | PurchaseConfirmationEmail
  | OrderLine string string
  | ConfirmationSMS
  | ProfileEmail string
  | SecurityAlert
  | NoNotification string

record notification = consumer +
  sent :: "notice list"

definition NotificationConsumer :: notification where
  "NotificationConsumer = \<lparr> unacked = [], sent = [] \<rparr>"

definition emit :: "notification \<Rightarrow> notice \<Rightarrow> notification" where
  "emit st n = st\<lparr>sent := sent st @ [n]\<rparr>"

definition sendLoginAlert :: "notification \<Rightarrow> jsval \<Rightarrow> completion \<times> notification" where
  "sendLoginAlert st action =
     (case template action [''userId''] of
          Inl e \<Rightarrow> (Throw e, st)
        | Inr u \<Rightarrow>
            (let st1 = emit st (LoginAlertEmail u)
             in case template action [''data'', ''device''] of
                  Inl e \<Rightarrow> (Throw e, st1)
                | Inr d \<Rightarrow> (Normal, emit st1 (PushNotification d))))"

definition sendPurchaseConfirmation :: "notification \<Rightarrow> jsval \<Rightarrow> completion \<times> notification" where
  "sendPurchaseConfirmation st action =
     (let st1 = emit st PurchaseConfirmationEmail
      in case template action [''data'', ''productId''] of
           Inl e \<Rightarrow> (Throw e, st1)
         | Inr p \<Rightarrow>
             (case template action [''data'', ''amount''] of
                  Inl e \<Rightarrow> (Throw e, st1)
                | Inr a \<Rightarrow> (Normal, emit (emit st1 (OrderLine p a)) ConfirmationSMS)))"

definition sendProfileChangeNotification ::
  "notification \<Rightarrow> jsval \<Rightarrow> completion \<times> notification" where
  "sendProfileChangeNotification st action =
     (case template action [''data'', ''field''] of
          Inl e \<Rightarrow> (Throw e, st)
        | Inr f \<Rightarrow> (Normal, emit (emit st (ProfileEmail f)) SecurityAlert))"

definition sendNotifications :: "notification \<Rightarrow> jsval \<Rightarrow> completion \<times> notification" where
  "sendNotifications st action =
     (case template action [''action''] of
          Inl e \<Rightarrow> (Throw e, st)
        | Inr line \<Rightarrow>
     (case GetV action ''action'' of
          Inl e \<Rightarrow> (Throw e, st)
        | Inr kind \<Rightarrow>
            if kind = JStr ''login'' then sendLoginAlert st action
            else if kind = JStr ''purchase'' then sendPurchaseConfirmation st action
            else if kind = JStr ''profile_update'' then sendProfileChangeNotification st action
            else (case template action [''action''] of
                      Inl e \<Rightarrow> (Throw e, st)
                    | Inr k \<Rightarrow> (Normal, emit st (NoNotification k)))))"

definition NotificationConsumer_consume ::
  "notification \<Rightarrow> delivery option \<Rightarrow> completion \<times> notification" where
  "NotificationConsumer_consume st msg =
     (case msg of
          None \<Rightarrow> (Normal, st)
        | Some m \<Rightarrow>
            (case parse_content (content m) of
                 Inl e \<Rightarrow> (Throw e, st)
               | Inr action \<Rightarrow>
                   (case sendNotifications st action of
                        (Throw e, st1) \<Rightarrow> (Throw e, st1)
                      | (Normal, st1) \<Rightarrow> (Normal, channel_ack st1 m))))"

subsection \<open>\<open>CacheInvalidator\<close>\<close>

text \<open>
  \<open>invalidated\<close> and \<open>skipped\<close> are the two counters of \<open>this.cacheStats\<close>. An
  invalidation prints two console lines naming the cache and its key, then counts; the
  model keeps the completed calls, in order, as the list \<open>cleared\<close>.
\<close>

datatype target = UserCache jsval | ProductCache jsval

record cache_invalidator = consumer +
  invalidated :: nat
  skipped :: nat
  cleared :: "target list"

definition CacheInvalidator :: cache_invalidator where
  "CacheInvalidator = \<lparr> unacked = [], invalidated = 0, skipped = 0, cleared = [] \<rparr>"

definition invalidateUserCache ::
  "cache_invalidator \<Rightarrow> jsval \<Rightarrow> completion \<times> cache_invalidator" where
  "invalidateUserCache st userId =
     (case ToString userId of
          Inl e \<Rightarrow> (Throw e, st)
        | Inr key \<Rightarrow>
            (Normal,
             st\<lparr>invalidated := invalidated st + 1, cleared := cleared st @ [UserCache userId]\<rparr>))"

definition invalidateProductCache ::
  "cache_invalidator \<Rightarrow> jsval \<Rightarrow> completion \<times> cache_invalidator" where
  "invalidateProductCache st productId =
     (case ToString productId of
          Inl e \<Rightarrow> (Throw e, st)
        | Inr key \<Rightarrow>
            (Normal,
             st\<lparr>invalidated := invalidated st + 1,
                cleared := cleared st @ [ProductCache productId]\<rparr>))"

definition invalidateCache :: "cache_invalidator \<Rightarrow> jsval \<Rightarrow> completion \<times> cache_invalidator" where
  "invalidateCache st action =
     (case template action [''action''] of
          Inl e \<Rightarrow> (Throw e, st)
        | Inr line \<Rightarrow>
     (case GetV action ''action'' of
          Inl e \<Rightarrow> (Throw e, st)
        | Inr kind \<Rightarrow>
            if kind = JStr ''profile_update'' then
              (case GetV action ''userId'' of
                   Inl e \<Rightarrow> (Throw e, st)
                 | Inr u \<Rightarrow> invalidateUserCache st u)
            else if kind = JStr ''purchase'' then
              (case GetV action ''userId'' of
                   Inl e \<Rightarrow> (Throw e, st)
                 | Inr u \<Rightarrow>
                     (case invalidateUserCache st u of
                          (Throw e, st1) \<Rightarrow> (Throw e, st1)
                        | (Normal, st1) \<Rightarrow>
                            (case get_path action [''data'', ''productId''] of
                                 Inl e \<Rightarrow> (Throw e, st1)
                               | Inr p \<Rightarrow> invalidateProductCache st1 p)))
            else if kind = JStr ''login'' then (Normal, st\<lparr>skipped := skipped st + 1\<rparr>)
            else (Normal, st\<lparr>skipped := skipped st + 1\<rparr>)))"

definition CacheInvalidator_consume ::
  "cache_invalidator \<Rightarrow> delivery option \<Rightarrow> completion \<times> cache_invalidator" where
  "CacheInvalidator_consume st msg =
     (case msg of
          None \<Rightarrow> (Normal, st)
        | Some m \<Rightarrow>
            (case parse_content (content m) of
                 Inl e \<Rightarrow> (Throw e, st)
               | Inr action \<Rightarrow>
                   (case invalidateCache st action of
                        (Throw e, st1) \<Rightarrow> (Throw e, st1)
                      | (Normal, st1) \<Rightarrow> (Normal, channel_ack st1 m))))"

subsection \<open>\<open>AuditConsumer\<close>\<close>

text \<open>
  The consumer reads the clock and the random generator and goes to the file system.
  What they answer during one message is the record \<open>io\<close>: \<open>clock\<close> is \<open>Date.now()\<close>,
  \<open>random36\<close> is \<open>Math.random().toString(36)\<close>, \<open>read_fault\<close> is the error, if any, of
  \<open>fs.readFile\<close> on an existing file, and \<open>write_fault\<close> says how \<open>fs.writeFile\<close>
  ends. \<open>fs.writeFile\<close> replaces the file in place: it fails either before the file is
  touched or after it was truncated, and then leaves bytes that are no JSON text.
\<close>

datatype disk_file = Absent | Holds buffer

datatype write_fault = NoFault | FailsBeforeWrite error | FailsMidWrite error

record io =
  clock :: nat
  random36 :: string
  read_fault :: "error option"
  write_fault :: write_fault

record audit = consumer +
  audit_log :: disk_file
  warnings :: "error list"

definition AuditConsumer :: "disk_file \<Rightarrow> audit" where
  "AuditConsumer f = \<lparr> unacked = [], audit_log = f, warnings = [] \<rparr>"

definition fs_readFile :: "io \<Rightarrow> disk_file \<Rightarrow> error + buffer" where
  "fs_readFile env f =
     (case f of
          Absent \<Rightarrow> Inl ENOENT
        | Holds b \<Rightarrow> (case read_fault env of Some e \<Rightarrow> Inl e | None \<Rightarrow> Inr b))"

definition fs_writeFile :: "io \<Rightarrow> disk_file \<Rightarrow> json \<Rightarrow> completion \<times> disk_file" where
  "fs_writeFile env f text =
     (case write_fault env of
          NoFault \<Rightarrow> (Normal, Holds (JsonText text))
        | FailsBeforeWrite e \<Rightarrow> (Throw e, f)
        | FailsMidWrite e \<Rightarrow> (Throw e, Holds Malformed))"

text \<open>The decimal digits of a natural number, as \<open>Date.now()\<close> prints in a template.\<close>

definition digit_char :: "nat \<Rightarrow> char" where
  "digit_char d = ''0123456789'' ! d"

fun decimal :: "nat \<Rightarrow> string" where
  "decimal n = (if n < 10 then [digit_char n] else decimal (n div 10) @ [digit_char (n mod 10)])"

declare decimal.simps [simp del]

definition substr :: "string \<Rightarrow> nat \<Rightarrow> nat \<Rightarrow> string" where
  "substr s start len = take len (drop start s)"

definition generateLogId :: "io \<Rightarrow> string" where
  "generateLogId env = ''AUDIT-'' @ decimal (clock env) @ ''-'' @ substr (random36 env) 2 9"

definition getComplianceFlags :: "jsval \<Rightarrow> error + string list" where
  "getComplianceFlags action =
     (case GetV action ''action'' of
          Inl e \<Rightarrow> Inl e
        | Inr kind \<Rightarrow>
            (let flags0 = [''LOGGED''];
                 flags1 = (if kind = JStr ''purchase'' then flags0 @ [''FINANCIAL_RECORD'']
                           else flags0);
                 flags2 = (if kind = JStr ''profile_update'' then flags1 @ [''PII_CHANGE'', ''GDPR'']
                           else flags1);
                 flags3 = (if kind = JStr ''login'' then flags2 @ [''SECURITY_EVENT'']
                           else flags2)
             in Inr flags3))"

text \<open>The inner \<open>try\<close> of \<open>writeToFile\<close>: read the file and parse it.\<close>

definition read_log_file :: "io \<Rightarrow> disk_file \<Rightarrow> error + jsval" where
  "read_log_file env f =
     (case fs_readFile env f of
          Inl e \<Rightarrow> Inl e
        | Inr b \<Rightarrow> parse_content b)"

text \<open>\<open>logs.push(entry)\<close>; only an array has \<open>push\<close>.\<close>

definition Array_push :: "jsval \<Rightarrow> jsval \<Rightarrow> error + jsval" where
  "Array_push logs entry =
     (case logs of JArr xs \<Rightarrow> Inr (JArr (xs @ [entry])) | _ \<Rightarrow> Inl TypeError)"

text \<open>What an entry is once it was written as an element of the log and read again.\<close>

definition stored_entry :: "jsval \<Rightarrow> jsval" where
  "stored_entry entry = JSON_parse (undefined_to_null (JSON_stringify entry))"

text \<open>The body of the outer \<open>try\<close>, then \<open>writeToFile\<close> with its \<open>catch\<close>.\<close>

definition writeToFile_try :: "io \<Rightarrow> audit \<Rightarrow> jsval \<Rightarrow> completion \<times> audit" where
  "writeToFile_try env st entry =
     (let logs = (case read_log_file env (audit_log st) of
                      Inl e \<Rightarrow> JArr []
                    | Inr v \<Rightarrow> v)
      in case Array_push logs entry of
           Inl e \<Rightarrow> (Throw e, st)
         | Inr logs1 \<Rightarrow>
             (case JSON_stringify logs1 of
                  None \<Rightarrow> (Throw TypeError, st)
                | Some text \<Rightarrow>
                    (case fs_writeFile env (audit_log st) text of
                         (c, f) \<Rightarrow> (c, st\<lparr>audit_log := f\<rparr>))))"

definition writeToFile :: "io \<Rightarrow> audit \<Rightarrow> jsval \<Rightarrow> completion \<times> audit" where
  "writeToFile env st entry =
     (case writeToFile_try env st entry of
          (Throw e, st1) \<Rightarrow> (Normal, st1\<lparr>warnings := warnings st1 @ [e]\<rparr>)
        | (Normal, st1) \<Rightarrow> (Normal, st1))"

definition logAction :: "io \<Rightarrow> audit \<Rightarrow> jsval \<Rightarrow> completion \<times> audit" where
  "logAction env st action =
     (case template action [''action''] of
          Inl e \<Rightarrow> (Throw e, st)
        | Inr line \<Rightarrow>
     (case GetV action ''action'' of
          Inl e \<Rightarrow> (Throw e, st)
        | Inr a \<Rightarrow>
     (case GetV action ''userId'' of
          Inl e \<Rightarrow> (Throw e, st)
        | Inr u \<Rightarrow>
     (case GetV action ''timestamp'' of
          Inl e \<Rightarrow> (Throw e, st)
        | Inr t \<Rightarrow>
     (case GetV action ''data'' of
          Inl e \<Rightarrow> (Throw e, st)
        | Inr d \<Rightarrow>
     (case getComplianceFlags action of
          Inl e \<Rightarrow> (Throw e, st)
        | Inr flags \<Rightarrow>
            writeToFile env st
              (JObj [(''logId'', JStr (generateLogId env)), (''action'', a), (''userId'', u),
                     (''timestamp'', t), (''data'', d),
                     (''compliance'', JArr (map JStr flags))])))))))"

definition AuditConsumer_consume ::
  "io \<Rightarrow> audit \<Rightarrow> delivery option \<Rightarrow> completion \<times> audit" where
  "AuditConsumer_consume env st msg =
     (case msg of
          None \<Rightarrow> (Normal, st)
        | Some m \<Rightarrow>
            (case parse_content (content m) of
                 Inl e \<Rightarrow> (Throw e, st)
               | Inr action \<Rightarrow>
                   (case logAction env st action of
                        (Throw e, st1) \<Rightarrow> (Throw e, st1)
                      | (Normal, st1) \<Rightarrow> (Normal, channel_ack st1 m))))"

section \<open>Facts about JSON\<close>

lemma put_prop_fresh: "fst kv \<notin> fst ` set ps \<Longrightarrow> put_prop ps kv = ps @ [kv]"
  by (induction ps) auto

lemma foldl_put_prop_distinct:
  "distinct (map fst (ps @ kvs)) \<Longrightarrow> foldl put_prop ps kvs = ps @ kvs"
proof (induction kvs arbitrary: ps)
  case Nil
  then show ?case by simp
next
  case (Cons kv kvs)
  have fresh: "fst kv \<notin> fst ` set ps" using Cons.prems by auto
  have "distinct (map fst ((ps @ [kv]) @ kvs))" using Cons.prems by simp
  then have "foldl put_prop (ps @ [kv]) kvs = (ps @ [kv]) @ kvs" by (rule Cons.IH)
  then show ?case by (simp add: put_prop_fresh [OF fresh])
qed


text \<open>Properties already in enumeration order stay where they are.\<close>

lemma filter_split_while:
  assumes "list_all (\<lambda>x. \<not> P x) (dropWhile P xs)"
  shows "filter P xs = takeWhile P xs" and "filter (\<lambda>x. \<not> P x) xs = dropWhile P xs"
proof -
  have none: "\<And>x. x \<in> set (dropWhile P xs) \<Longrightarrow> \<not> P x"
    using assms by (simp add: list_all_iff)
  show "filter P xs = takeWhile P xs"
    using takeWhile_eq_filter [of P xs] none by simp
  have "filter (\<lambda>x. \<not> P x) xs
          = filter (\<lambda>x. \<not> P x) (takeWhile P xs) @ filter (\<lambda>x. \<not> P x) (dropWhile P xs)"
    by (metis filter_append takeWhile_dropWhile_id)
  moreover have "filter (\<lambda>x. \<not> P x) (takeWhile P xs) = []"
    by (auto simp: filter_empty_conv dest: set_takeWhileD)
  moreover have "filter (\<lambda>x. \<not> P x) (dropWhile P xs) = dropWhile P xs"
    using none by (simp add: filter_id_conv)
  ultimately show "filter (\<lambda>x. \<not> P x) xs = dropWhile P xs" by simp
qed

lemma takeWhile_keys: "takeWhile is_index (map fst kvs) = map fst (takeWhile (\<lambda>kv. is_index (fst kv)) kvs)"
  by (induction kvs) auto

lemma dropWhile_keys: "dropWhile is_index (map fst kvs) = map fst (dropWhile (\<lambda>kv. is_index (fst kv)) kvs)"
  by (induction kvs) auto

lemma rest_not_index:
  assumes "enumeration_order (map fst kvs)"
  shows "list_all (\<lambda>kv. \<not> is_index (fst kv)) (dropWhile (\<lambda>kv. is_index (fst kv)) kvs)"
proof -
  from assms have "list_all (\<lambda>k. \<not> is_index k) (dropWhile is_index (map fst kvs))"
    by (simp only: enumeration_order_def)
  then have "list_all (\<lambda>k. \<not> is_index k) (map fst (dropWhile (\<lambda>kv. is_index (fst kv)) kvs))"
    by (simp only: dropWhile_keys)
  then show ?thesis by (simp only: list_all_iff set_map ball_simps image_iff)
qed

lemma indices_sorted:
  assumes "enumeration_order (map fst kvs)"
  shows "sorted (map (\<lambda>kv. index_value (fst kv)) (takeWhile (\<lambda>kv. is_index (fst kv)) kvs))"
proof -
  from assms have "sorted (map index_value (takeWhile is_index (map fst kvs)))"
    by (simp only: enumeration_order_def)
  then have "sorted (map index_value (map fst (takeWhile (\<lambda>kv. is_index (fst kv)) kvs)))"
    by (simp only: takeWhile_keys)
  then show ?thesis by (simp only: map_map comp_def)
qed


lemma own_property_order_id:
  assumes "enumeration_order (map fst kvs)"
  shows "own_property_order kvs = kvs"
proof -
  let ?P = "\<lambda>kv. is_index (fst kv)"
  note r = rest_not_index [OF assms]
  have "own_property_order kvs =
          sort_key (\<lambda>kv. index_value (fst kv)) (takeWhile ?P kvs) @ dropWhile ?P kvs"
    unfolding own_property_order_def
    by (simp only: filter_split_while(1) [OF r] filter_split_while(2) [OF r])
  also have "\<dots> = takeWhile ?P kvs @ dropWhile ?P kvs"
    by (simp only: sort_key_id_if_sorted [OF indices_sorted [OF assms]])
  also have "\<dots> = kvs" by (rule takeWhile_dropWhile_id)
  finally show ?thesis .
qed

lemma object_of_members_id:
  "distinct (map fst kvs) \<Longrightarrow> enumeration_order (map fst kvs) \<Longrightarrow> object_of_members kvs = kvs"
proof -
  assume d: "distinct (map fst kvs)" and e: "enumeration_order (map fst kvs)"
  have "foldl put_prop [] kvs = kvs" using foldl_put_prop_distinct [of "[]" kvs] d by simp
  then show ?thesis by (simp only: object_of_members_def own_property_order_id [OF e])
qed

text \<open>A value JSON carries has a text, and \<open>JSON.parse\<close> of the text is the value again.\<close>

lemma stringify_parse_safe:
  "json_safe v \<Longrightarrow> \<exists>d. JSON_stringify v = Some d \<and> JSON_parse d = v"
proof (induction v)
  case (JArr xs)
  have "\<forall>x \<in> set xs. \<exists>d. JSON_stringify x = Some d \<and> JSON_parse d = x"
    using JArr by (auto simp: list_all_iff)
  then have "map JSON_parse (map undefined_to_null (map JSON_stringify xs)) = xs"
    by (induction xs) (auto simp: undefined_to_null_def)
  then show ?case by simp
next
  case (JObj kvs)
  have el: "\<forall>kv \<in> set kvs. \<exists>d. JSON_stringify (snd kv) = Some d \<and> JSON_parse d = snd kv"
    using JObj by (fastforce simp: list_all_iff)
  have "map (map_prod id JSON_parse) (defined_members (map (map_prod id JSON_stringify) kvs)) = kvs"
    using el by (induction kvs) auto
  moreover have "distinct (map fst kvs)" "enumeration_order (map fst kvs)"
    using JObj.prems by simp_all
  ultimately show ?case by (simp add: object_of_members_id)
qed (auto split: jsnum.splits)



text \<open>A name that does not begin with a digit is no array index.\<close>

lemma not_index_Nil: "is_index [] = False"
  by (simp add: is_index_def array_index_def)

lemma not_index_Cons: "\<not> is_digit c \<Longrightarrow> is_index (c # cs) = False"
  by (simp add: is_index_def array_index_def)

lemmas json_eval = object_of_members_def own_property_order_def enumeration_order_def
  not_index_Nil not_index_Cons is_digit_def undefined_to_null_def parse_content_def

section \<open>Facts about the broker and the setup\<close>

lemma assertExchange_Inr:
  "assertExchange b n t d = Inr b' \<Longrightarrow>
     b_queues b' = b_queues b \<and> b_bindings b' = b_bindings b \<and> b_exchanges b' n \<noteq> None"
  by (auto simp: assertExchange_def split: if_splits option.splits)

lemma assertQueue_Inr:
  "assertQueue b q d = Inr b' \<Longrightarrow>
     b_exchanges b' = b_exchanges b \<and> b_bindings b' = b_bindings b \<and> b_queues b' q \<noteq> None \<and>
     (\<forall>q'. b_queues b q' \<noteq> None \<longrightarrow> b_queues b' q' = b_queues b q')"
  by (auto simp: assertQueue_def split: if_splits option.splits)

lemma bindQueue_Inr:
  "bindQueue b q ex k = Inr b' \<Longrightarrow>
     b_exchanges b' = b_exchanges b \<and> b_queues b' = b_queues b \<and>
     set (b_bindings b') = insert (q, ex, k) (set (b_bindings b))"
  by (auto simp: bindQueue_def split: if_splits)

lemma setup_queues_Inr:
  "setup_queues cfg b qs = Inr b' \<Longrightarrow>
     b_exchanges b' = b_exchanges b \<and>
     (\<forall>q. b_queues b q \<noteq> None \<longrightarrow> b_queues b' q = b_queues b q) \<and>
     set (b_bindings b) \<subseteq> set (b_bindings b') \<and>
     (\<forall>q \<in> set qs. b_queues b' q \<noteq> None \<and> (q, exchange_name cfg, []) \<in> set (b_bindings b'))"
proof (induction qs arbitrary: b)
  case Nil
  then show ?case by simp
next
  case (Cons q qs)
  from Cons.prems obtain b1 b2 where
    aq: "assertQueue b q True = Inr b1" and
    bq: "bindQueue b1 q (exchange_name cfg) [] = Inr b2" and
    rest: "setup_queues cfg b2 qs = Inr b'"
    by (auto split: sum.splits)
  note A = assertQueue_Inr [OF aq]
  note B = bindQueue_Inr [OF bq]
  note R = Cons.IH [OF rest]
  have ex: "b_exchanges b' = b_exchanges b" using A B R by simp
  have keep: "\<forall>q'. b_queues b q' \<noteq> None \<longrightarrow> b_queues b' q' = b_queues b q'"
    using A B R by metis
  have binds: "set (b_bindings b) \<subseteq> set (b_bindings b')" using A B R by auto
  have q_ok: "b_queues b' q \<noteq> None \<and> (q, exchange_name cfg, []) \<in> set (b_bindings b')"
    using A B R by (metis insertI1 subsetD)
  show ?case using ex keep binds q_ok R by auto
qed

lemma setupExchange_Inr:
  "setupExchange cfg b0 = Inr b1 \<Longrightarrow>
     b_exchanges b1 (exchange_name cfg) \<noteq> None \<and>
     (\<forall>q \<in> set (Object_values (queues cfg)).
        b_queues b1 q \<noteq> None \<and> (q, exchange_name cfg, []) \<in> set (b_bindings b1))"
proof -
  assume h: "setupExchange cfg b0 = Inr b1"
  then obtain b where
    ae: "assertExchange b0 (exchange_name cfg) (exchange_type cfg) (exchange_durable cfg) = Inr b" and
    sq: "setup_queues cfg b (Object_values (queues cfg)) = Inr b1"
    by (auto simp: setupExchange_def split: sum.splits)
  from assertExchange_Inr [OF ae] setup_queues_Inr [OF sq] show ?thesis by simp
qed

lemma connect_Inr:
  "connect cfg pub b1 = Inr (pub', b2) \<Longrightarrow>
     channel pub' = OpenChannel \<and> b_queues b2 = b_queues b1 \<and> b_bindings b2 = b_bindings b1 \<and>
     b_exchanges b2 (exchange_name cfg) \<noteq> None"
  by (auto simp: connect_def split: sum.splits dest: assertExchange_Inr)

lemma route_bound:
  "b_exchanges b ex \<noteq> None \<Longrightarrow> (q, ex, []) \<in> set (b_bindings b) \<Longrightarrow> q \<in> set (route b ex [])"
  by (force simp: route_def split: option.splits)

lemma publishAction_Inr:
  "publishAction cfg pub b now action userId data_arg = (Inr message, b') \<Longrightarrow>
     channel pub = OpenChannel \<and> message = build_message now action userId data_arg \<and>
     (\<exists>doc. JSON_stringify message = Some doc \<and>
        b' = basic_publish b (exchange_name cfg) []
               \<lparr>content = JsonText doc, persistent = True, contentType = ''application/json''\<rparr>)"
  by (auto simp: publishAction_def Let_def split: channel_state.splits option.splits sum.splits)

lemma broadcast_Inr:
  "broadcast cfg b0 now action userId data_arg = Inr (message, b2, b3) \<Longrightarrow>
     \<exists>b1 pub. setupExchange cfg b0 = Inr b1 \<and> connect cfg ActionPublisher b1 = Inr (pub, b2) \<and>
       publishAction cfg pub b2 now action userId data_arg = (Inr message, b3)"
  by (auto simp: broadcast_def split: sum.splits prod.splits)

text \<open>The definitions a concrete run unfolds to.\<close>

lemmas run_defs = broadcast_def setupExchange_def connect_def publishAction_def build_message_def
  assertExchange_def assertQueue_def bindQueue_def basic_publish_def route_def enqueue_def
  config_def empty_broker_def ActionPublisher_def Object_values_def consumer_view_def
  parsed_copies_def published_record_def ToString_def json_eval

text \<open>On an open channel the publish happens, whatever the method does afterwards.\<close>

lemma publishAction_open:
  assumes "channel pub = OpenChannel"
  shows "\<exists>doc. JSON_stringify (build_message now action userId data_arg) = Some doc \<and>
           snd (publishAction cfg pub b now action userId data_arg) =
             basic_publish b (exchange_name cfg) []
               \<lparr>content = JsonText doc, persistent = True, contentType = ''application/json''\<rparr> \<and>
           (\<forall>message. fst (publishAction cfg pub b now action userId data_arg) = Inr message \<longrightarrow>
              message = build_message now action userId data_arg)"
proof -
  obtain doc where doc: "JSON_stringify (build_message now action userId data_arg) = Some doc"
    by (simp add: build_message_def Let_def)
  show ?thesis
    using assms doc
    by (simp add: publishAction_def Let_def split: sum.splits)
qed

section \<open>C1: one copy per bound queue, and what the consumer parses\<close>

text \<open>
  Claim C1, first half, for every event: after \<open>setupExchange\<close> has bound the
  configured queues and a publisher has connected, one \<open>publishAction\<close> appends exactly
  one new message to each of these queues, and its content is the JSON text of the
  record the publisher built (the record it returns, when it returns). Second half, as
  far as it holds: when that record consists of values JSON carries (no \<open>undefined\<close>,
  no number that is not finite), the value a consumer gets from \<open>JSON.parse\<close> of the
  message is the record itself.
\<close>

theorem C1_fanout_one_copy_per_queue:
  assumes stp: "setupExchange cfg b0 = Inr b1"
    and conn: "connect cfg pub b1 = Inr (pub', b2)"
    and publ: "publishAction cfg pub' b2 now action userId data_arg = (r, b3)"
    and q: "queue \<in> set (Object_values (queues cfg))"
  shows "\<exists>s m doc.
           b_queues b2 queue = Some s \<and>
           b_queues b3 queue = Some (s\<lparr>messages := messages s @ [m]\<rparr>) \<and>
           JSON_stringify (build_message now action userId data_arg) = Some doc \<and>
           content m = JsonText doc \<and>
           parse_content (content m) = Inr (JSON_parse doc) \<and>
           (json_safe (build_message now action userId data_arg) \<longrightarrow>
              parse_content (content m) = Inr (build_message now action userId data_arg)) \<and>
           (\<forall>message. r = Inr message \<longrightarrow>
              message = build_message now action userId data_arg)"
proof -
  from connect_Inr [OF conn] have
    opn: "channel pub' = OpenChannel" and
    same_q: "b_queues b2 = b_queues b1" and same_b: "b_bindings b2 = b_bindings b1" and
    ex2: "b_exchanges b2 (exchange_name cfg) \<noteq> None"
    by auto
  from publishAction_open [OF opn, of now action userId data_arg cfg b2] publ obtain doc where
    doc: "JSON_stringify (build_message now action userId data_arg) = Some doc" and
    b3: "b3 = basic_publish b2 (exchange_name cfg) []
               \<lparr>content = JsonText doc, persistent = True, contentType = ''application/json''\<rparr>" and
    ret: "\<forall>message. r = Inr message \<longrightarrow> message = build_message now action userId data_arg"
    by auto
  let ?m = "\<lparr>content = JsonText doc, persistent = True, contentType = ''application/json''\<rparr>"
  from setupExchange_Inr [OF stp] q have
    q1: "b_queues b1 queue \<noteq> None" and bd1: "(queue, exchange_name cfg, []) \<in> set (b_bindings b1)"
    by auto
  from q1 same_q obtain s where s: "b_queues b2 queue = Some s" by auto
  have "queue \<in> set (route b2 (exchange_name cfg) [])"
    using route_bound [OF ex2] bd1 same_b by simp
  then have copy: "b_queues b3 queue = Some (s\<lparr>messages := messages s @ [?m]\<rparr>)"
    by (simp add: b3 basic_publish_def s enqueue_def)
  have parsed: "parse_content (content ?m) = Inr (JSON_parse doc)"
    by (simp add: parse_content_def)
  have same: "json_safe (build_message now action userId data_arg) \<longrightarrow>
      parse_content (content ?m) = Inr (build_message now action userId data_arg)"
  proof
    assume "json_safe (build_message now action userId data_arg)"
    from stringify_parse_safe [OF this] doc
    have "JSON_parse doc = build_message now action userId data_arg" by auto
    then show "parse_content (content ?m) = Inr (build_message now action userId data_arg)"
      by (simp add: parse_content_def)
  qed
  have c: "content ?m = JsonText doc" by simp
  from s copy doc c parsed same ret show ?thesis by blast
qed


theorem C1_fanout_one_copy_per_queue_witness:
  "\<exists>b1 pub b2 r b3 s m.
      setupExchange config empty_broker = Inr b1 \<and>
      connect config ActionPublisher b1 = Inr (pub, b2) \<and>
      publishAction config pub b2 ''2025-11-12T10:30:00.000Z'' (JStr ''purchase'') (JStr ''bob456'')
        (JObj [(''productId'', JStr ''LAPTOP-001''), (''amount'', JNum (Finite ''1299.99'')),
               (''currency'', JStr ''USD'')]) = (r, b3) \<and>
      ''audit.queue'' \<in> set (Object_values (queues config)) \<and>
      json_safe (build_message ''2025-11-12T10:30:00.000Z'' (JStr ''purchase'') (JStr ''bob456'')
        (JObj [(''productId'', JStr ''LAPTOP-001''), (''amount'', JNum (Finite ''1299.99'')),
               (''currency'', JStr ''USD'')])) \<and>
      b_queues b2 ''audit.queue'' = Some s \<and>
      b_queues b3 ''audit.queue'' = Some (s\<lparr>messages := messages s @ [m]\<rparr>) \<and>
      parse_content (content m) =
        Inr (build_message ''2025-11-12T10:30:00.000Z'' (JStr ''purchase'') (JStr ''bob456'')
          (JObj [(''productId'', JStr ''LAPTOP-001''), (''amount'', JNum (Finite ''1299.99'')),
                 (''currency'', JStr ''USD'')]))"
proof -
  let ?d = "JObj [(''productId'', JStr ''LAPTOP-001''), (''amount'', JNum (Finite ''1299.99'')),
               (''currency'', JStr ''USD'')]"
  let ?msg = "build_message ''2025-11-12T10:30:00.000Z'' (JStr ''purchase'') (JStr ''bob456'') ?d"
  have "\<exists>message b2 b3.
          broadcast config empty_broker ''2025-11-12T10:30:00.000Z'' (JStr ''purchase'')
            (JStr ''bob456'') ?d = Inr (message, b2, b3)"
    by (simp add: run_defs)
  then obtain message b2 b3 where
    run: "broadcast config empty_broker ''2025-11-12T10:30:00.000Z'' (JStr ''purchase'')
            (JStr ''bob456'') ?d = Inr (message, b2, b3)"
    by blast
  from broadcast_Inr [OF run] obtain b1 pub where
    h1: "setupExchange config empty_broker = Inr b1" and
    h2: "connect config ActionPublisher b1 = Inr (pub, b2)" and
    h3: "publishAction config pub b2 ''2025-11-12T10:30:00.000Z'' (JStr ''purchase'')
           (JStr ''bob456'') ?d = (Inr message, b3)"
    by blast
  have q: "''audit.queue'' \<in> set (Object_values (queues config))"
    by (simp add: config_def Object_values_def)
  have safe: "json_safe ?msg"
    by (simp add: build_message_def json_eval)
  from C1_fanout_one_copy_per_queue [OF h1 h2 h3 q] safe obtain s m where
    "b_queues b2 ''audit.queue'' = Some s"
    "b_queues b3 ''audit.queue'' = Some (s\<lparr>messages := messages s @ [m]\<rparr>)"
    "parse_content (content m) = Inr ?msg"
    by blast
  with h1 h2 h3 q safe show ?thesis by blast
qed

text \<open>
  Claim C1 as stated, for every published event, fails: a payload with the number
  \<open>NaN\<close> is serialized as \<open>null\<close>, so every consumer parses a record whose \<open>data\<close>
  differs from the one the publisher serialized.
\<close>

theorem C1_nan_payload_counterexample:
  "published_record
     (broadcast config empty_broker ''2025-11-12T10:30:00.000Z''
        (JStr ''purchase'') (JStr ''bob456'') (JObj [(''amount'', JNum NaN)]))
   = Inr (JObj [(''action'', JStr ''purchase''), (''userId'', JStr ''bob456''),
                (''timestamp'', JStr ''2025-11-12T10:30:00.000Z''),
                (''data'', JObj [(''amount'', JNum NaN)])])
   \<and>
   consumer_view
     (broadcast config empty_broker ''2025-11-12T10:30:00.000Z''
        (JStr ''purchase'') (JStr ''bob456'') (JObj [(''amount'', JNum NaN)]))
     ''analytics.queue''
   = [Inr (JObj [(''action'', JStr ''purchase''), (''userId'', JStr ''bob456''),
                 (''timestamp'', JStr ''2025-11-12T10:30:00.000Z''),
                 (''data'', JObj [(''amount'', JNull)])])]
   \<and>
   consumer_view
     (broadcast config empty_broker ''2025-11-12T10:30:00.000Z''
        (JStr ''purchase'') (JStr ''bob456'') (JObj [(''amount'', JNum NaN)]))
     ''analytics.queue''
   \<noteq> [published_record
        (broadcast config empty_broker ''2025-11-12T10:30:00.000Z''
           (JStr ''purchase'') (JStr ''bob456'') (JObj [(''amount'', JNum NaN)]))]"
  by (simp add: run_defs)

section \<open>C10: the default payload and the returned record\<close>

text \<open>
  Claim C10: whenever \<open>publishAction\<close> returns, it returns the record
  \<open>{action, userId, timestamp, data}\<close>, where a \<open>data\<close> argument that was left out is
  the empty object, and the channel was handed exactly the JSON text of that record. It
  does return on a connected publisher when \<open>action\<close> and \<open>userId\<close> can be printed.
\<close>

theorem C10_publishAction_default_and_result:
  "(\<forall>result b'.
      publishAction cfg pub b now action userId data_arg = (Inr result, b') \<longrightarrow>
      result = JObj [(''action'', action), (''userId'', userId), (''timestamp'', JStr now),
                     (''data'', if data_arg = JUndefined then JObj [] else data_arg)] \<and>
      (\<exists>doc. JSON_stringify result = Some doc \<and>
         b' = basic_publish b (exchange_name cfg) []
                \<lparr>content = JsonText doc, persistent = True,
                 contentType = ''application/json''\<rparr>))
   \<and>
   (channel pub = OpenChannel \<and> printable action \<and> printable userId \<longrightarrow>
      (\<exists>b'. publishAction cfg pub b now action userId data_arg =
         (Inr (JObj [(''action'', action), (''userId'', userId), (''timestamp'', JStr now),
                     (''data'', if data_arg = JUndefined then JObj [] else data_arg)]), b')))"
proof (intro conjI allI impI)
  fix result b'
  assume r: "publishAction cfg pub b now action userId data_arg = (Inr result, b')"
  from publishAction_Inr [OF r]
  show "result = JObj [(''action'', action), (''userId'', userId), (''timestamp'', JStr now),
                     (''data'', if data_arg = JUndefined then JObj [] else data_arg)]"
    by (simp add: build_message_def Let_def)
  from publishAction_Inr [OF r]
  show "\<exists>doc. JSON_stringify result = Some doc \<and>
         b' = basic_publish b (exchange_name cfg) []
                \<lparr>content = JsonText doc, persistent = True,
                 contentType = ''application/json''\<rparr>"
    by blast
next
  assume "channel pub = OpenChannel \<and> printable action \<and> printable userId"
  then show "\<exists>b'. publishAction cfg pub b now action userId data_arg =
         (Inr (JObj [(''action'', action), (''userId'', userId), (''timestamp'', JStr now),
                     (''data'', if data_arg = JUndefined then JObj [] else data_arg)]), b')"
    by (simp add: publishAction_def build_message_def ToString_def Let_def)
qed

theorem C10_publishAction_default_and_result_witness:
  "channel (ActionPublisher\<lparr>channel := OpenChannel\<rparr>) = OpenChannel
   \<and> printable (JStr ''login'') \<and> printable (JStr ''alice123'')
   \<and> publishAction config (ActionPublisher\<lparr>channel := OpenChannel\<rparr>) empty_broker
       ''2025-11-12T10:30:00.000Z'' (JStr ''login'') (JStr ''alice123'') JUndefined =
     (Inr (JObj [(''action'', JStr ''login''), (''userId'', JStr ''alice123''),
                 (''timestamp'', JStr ''2025-11-12T10:30:00.000Z''), (''data'', JObj [])]),
      basic_publish empty_broker ''user.actions'' []
        \<lparr>content =
           JsonText (JsonObj [(''action'', JsonStr ''login''), (''userId'', JsonStr ''alice123''),
                              (''timestamp'', JsonStr ''2025-11-12T10:30:00.000Z''),
                              (''data'', JsonObj [])]),
         persistent = True, contentType = ''application/json''\<rparr>)"
proof -
  let ?pub = "ActionPublisher\<lparr>channel := OpenChannel\<rparr>"
  let ?msg = "JObj [(''action'', JStr ''login''), (''userId'', JStr ''alice123''),
                    (''timestamp'', JStr ''2025-11-12T10:30:00.000Z''), (''data'', JObj [])]"
  note inst = C10_publishAction_default_and_result
      [of config ?pub empty_broker "''2025-11-12T10:30:00.000Z''" "JStr ''login''"
          "JStr ''alice123''" JUndefined]
  have pre: "channel ?pub = OpenChannel \<and> printable (JStr ''login'') \<and> printable (JStr ''alice123'')"
    by simp
  have "\<exists>b'. publishAction config ?pub empty_broker ''2025-11-12T10:30:00.000Z'' (JStr ''login'')
            (JStr ''alice123'') JUndefined = (Inr ?msg, b')"
    using inst [THEN conjunct2, THEN mp, OF pre] by simp
  then obtain b' where
    ret: "publishAction config ?pub empty_broker ''2025-11-12T10:30:00.000Z'' (JStr ''login'')
            (JStr ''alice123'') JUndefined = (Inr ?msg, b')" ..
  have "b' = basic_publish empty_broker ''user.actions'' []
        \<lparr>content =
           JsonText (JsonObj [(''action'', JsonStr ''login''), (''userId'', JsonStr ''alice123''),
                              (''timestamp'', JsonStr ''2025-11-12T10:30:00.000Z''),
                              (''data'', JsonObj [])]),
         persistent = True, contentType = ''application/json''\<rparr>"
    using inst [THEN conjunct1, THEN spec, THEN spec, THEN mp, OF ret]
    by (simp add: config_def)
  then have "publishAction config ?pub empty_broker ''2025-11-12T10:30:00.000Z'' (JStr ''login'')
            (JStr ''alice123'') JUndefined =
     (Inr ?msg,
      basic_publish empty_broker ''user.actions'' []
        \<lparr>content =
           JsonText (JsonObj [(''action'', JsonStr ''login''), (''userId'', JsonStr ''alice123''),
                              (''timestamp'', JsonStr ''2025-11-12T10:30:00.000Z''),
                              (''data'', JsonObj [])]),
         persistent = True, contentType = ''application/json''\<rparr>)"
    using ret by (simp only:)
  with pre show ?thesis by (intro conjI) (simp_all only: simp_thms)
qed

section \<open>C2: acknowledgment only after the handler has returned\<close>

text \<open>No handler touches the channel: the outstanding deliveries are as before.\<close>

lemma processAction_unacked: "unacked (snd (processAction st action)) = unacked st"
  by (simp add: processAction_def Let_def split: sum.splits)

lemma emit_unacked: "unacked (emit st n) = unacked st"
  by (simp add: emit_def)

lemma sendNotifications_unacked: "unacked (snd (sendNotifications st action)) = unacked st"
  by (simp add: sendNotifications_def sendLoginAlert_def sendPurchaseConfirmation_def
      sendProfileChangeNotification_def emit_unacked Let_def split: sum.splits)

lemma invalidateUserCache_unacked: "unacked (snd (invalidateUserCache st u)) = unacked st"
  by (simp add: invalidateUserCache_def split: sum.splits)

lemma invalidateProductCache_unacked: "unacked (snd (invalidateProductCache st p)) = unacked st"
  by (simp add: invalidateProductCache_def split: sum.splits)

lemma invalidateCache_unacked: "unacked (snd (invalidateCache st action)) = unacked st"
proof -
  have purchase: "\<And>u. unacked (snd (case invalidateUserCache st u of
                          (Throw e, st1) \<Rightarrow> (Throw e, st1)
                        | (Normal, st1) \<Rightarrow>
                            (case get_path action [''data'', ''productId''] of
                                 Inl e \<Rightarrow> (Throw e, st1)
                               | Inr p \<Rightarrow> invalidateProductCache st1 p))) = unacked st"
  proof -
    fix u
    obtain c s where r: "invalidateUserCache st u = (c, s)" by (cases "invalidateUserCache st u")
    have s: "unacked s = unacked st" using invalidateUserCache_unacked [of st u] r by simp
    show "unacked (snd (case invalidateUserCache st u of
                          (Throw e, st1) \<Rightarrow> (Throw e, st1)
                        | (Normal, st1) \<Rightarrow>
                            (case get_path action [''data'', ''productId''] of
                                 Inl e \<Rightarrow> (Throw e, st1)
                               | Inr p \<Rightarrow> invalidateProductCache st1 p))) = unacked st"
      using s by (cases c) (simp_all add: r invalidateProductCache_unacked split: sum.splits)
  qed
  show ?thesis
    by (simp add: invalidateCache_def invalidateUserCache_unacked purchase split: sum.splits)
qed

lemma writeToFile_try_unacked: "unacked (snd (writeToFile_try env st entry)) = unacked st"
  by (simp add: writeToFile_try_def Let_def split: sum.splits option.splits prod.splits)

lemma writeToFile_unacked: "unacked (snd (writeToFile env st entry)) = unacked st"
  using writeToFile_try_unacked [of env st entry]
  by (auto simp: writeToFile_def split: prod.splits completion.splits)

lemma logAction_unacked: "unacked (snd (logAction env st action)) = unacked st"
  by (simp add: logAction_def writeToFile_unacked split: sum.splits)

lemma consume_shape:
  "(case h of (Throw e, s) \<Rightarrow> (Throw e, s) | (Normal, s) \<Rightarrow> (Normal, k s)) = r \<Longrightarrow>
     (fst h = Normal \<longrightarrow> r = (Normal, k (snd h))) \<and> (fst h \<noteq> Normal \<longrightarrow> r = h)"
  by (cases h; cases "fst h") auto

text \<open>
  Claim C2: in each of the four consumers, for a delivered message whose content
  parses, the handler itself acknowledges nothing; when it returns, the callback ends
  with \<open>channel.ack\<close> applied to the state the handler left; when it throws, the
  callback ends where the handler ended, with the same outstanding deliveries as
  before, so the message stays unacknowledged and can be delivered again.
\<close>

theorem C2_ack_only_after_handler_returns:
  assumes "parse_content (content m) = Inr action"
  shows
    "(unacked (snd (processAction a action)) = unacked a \<and>
      (fst (processAction a action) = Normal \<longrightarrow>
         AnalyticsConsumer_consume a (Some m) = (Normal, channel_ack (snd (processAction a action)) m)) \<and>
      (fst (processAction a action) \<noteq> Normal \<longrightarrow>
         AnalyticsConsumer_consume a (Some m) = processAction a action))
     \<and>
     (unacked (snd (sendNotifications n action)) = unacked n \<and>
      (fst (sendNotifications n action) = Normal \<longrightarrow>
         NotificationConsumer_consume n (Some m) =
           (Normal, channel_ack (snd (sendNotifications n action)) m)) \<and>
      (fst (sendNotifications n action) \<noteq> Normal \<longrightarrow>
         NotificationConsumer_consume n (Some m) = sendNotifications n action))
     \<and>
     (unacked (snd (logAction env u action)) = unacked u \<and>
      (fst (logAction env u action) = Normal \<longrightarrow>
         AuditConsumer_consume env u (Some m) =
           (Normal, channel_ack (snd (logAction env u action)) m)) \<and>
      (fst (logAction env u action) \<noteq> Normal \<longrightarrow>
         AuditConsumer_consume env u (Some m) = logAction env u action))
     \<and>
     (unacked (snd (invalidateCache c action)) = unacked c \<and>
      (fst (invalidateCache c action) = Normal \<longrightarrow>
         CacheInvalidator_consume c (Some m) =
           (Normal, channel_ack (snd (invalidateCache c action)) m)) \<and>
      (fst (invalidateCache c action) \<noteq> Normal \<longrightarrow>
         CacheInvalidator_consume c (Some m) = invalidateCache c action))"
proof -
  have A: "(fst (processAction a action) = Normal \<longrightarrow>
         AnalyticsConsumer_consume a (Some m) = (Normal, channel_ack (snd (processAction a action)) m)) \<and>
      (fst (processAction a action) \<noteq> Normal \<longrightarrow>
         AnalyticsConsumer_consume a (Some m) = processAction a action)"
    by (rule consume_shape) (simp add: AnalyticsConsumer_consume_def assms)
  have N: "(fst (sendNotifications n action) = Normal \<longrightarrow>
         NotificationConsumer_consume n (Some m) =
           (Normal, channel_ack (snd (sendNotifications n action)) m)) \<and>
      (fst (sendNotifications n action) \<noteq> Normal \<longrightarrow>
         NotificationConsumer_consume n (Some m) = sendNotifications n action)"
    by (rule consume_shape) (simp add: NotificationConsumer_consume_def assms)
  have U: "(fst (logAction env u action) = Normal \<longrightarrow>
         AuditConsumer_consume env u (Some m) =
           (Normal, channel_ack (snd (logAction env u action)) m)) \<and>
      (fst (logAction env u action) \<noteq> Normal \<longrightarrow>
         AuditConsumer_consume env u (Some m) = logAction env u action)"
    by (rule consume_shape) (simp add: AuditConsumer_consume_def assms)
  have C: "(fst (invalidateCache c action) = Normal \<longrightarrow>
         CacheInvalidator_consume c (Some m) =
           (Normal, channel_ack (snd (invalidateCache c action)) m)) \<and>
      (fst (invalidateCache c action) \<noteq> Normal \<longrightarrow>
         CacheInvalidator_consume c (Some m) = invalidateCache c action)"
    by (rule consume_shape) (simp add: CacheInvalidator_consume_def assms)
  show ?thesis
    using A N U C processAction_unacked [of a action] sendNotifications_unacked [of n action]
      logAction_unacked [of env u action] invalidateCache_unacked [of c action]
    by blast
qed


theorem C2_ack_only_after_handler_returns_witness:
  "parse_content
     (content \<lparr>content = JsonText (JsonObj [(''action'', JsonStr ''login''),
                                            (''userId'', JsonStr ''alice123'')]),
               persistent = True, contentType = ''application/json'', deliveryTag = 7\<rparr>)
     = Inr (JObj [(''action'', JStr ''login''), (''userId'', JStr ''alice123'')])
   \<and>
   fst (processAction AnalyticsConsumer
          (JObj [(''action'', JStr ''login''), (''userId'', JStr ''alice123'')])) = Normal
   \<and>
   AnalyticsConsumer_consume AnalyticsConsumer
     (Some \<lparr>content = JsonText (JsonObj [(''action'', JsonStr ''login''),
                                          (''userId'', JsonStr ''alice123'')]),
             persistent = True, contentType = ''application/json'', deliveryTag = 7\<rparr>)
     = (Normal,
        channel_ack
          (snd (processAction AnalyticsConsumer
                  (JObj [(''action'', JStr ''login''), (''userId'', JStr ''alice123'')])))
          \<lparr>content = JsonText (JsonObj [(''action'', JsonStr ''login''),
                                         (''userId'', JsonStr ''alice123'')]),
            persistent = True, contentType = ''application/json'', deliveryTag = 7\<rparr>)
   \<and>
   fst (sendNotifications NotificationConsumer
          (JObj [(''action'', JStr ''login''), (''userId'', JStr ''alice123'')])) = Throw TypeError
   \<and>
   NotificationConsumer_consume NotificationConsumer
     (Some \<lparr>content = JsonText (JsonObj [(''action'', JsonStr ''login''),
                                          (''userId'', JsonStr ''alice123'')]),
             persistent = True, contentType = ''application/json'', deliveryTag = 7\<rparr>)
     = sendNotifications NotificationConsumer
         (JObj [(''action'', JStr ''login''), (''userId'', JStr ''alice123'')])"
proof -
  let ?m = "\<lparr>content = JsonText (JsonObj [(''action'', JsonStr ''login''),
                                            (''userId'', JsonStr ''alice123'')]),
               persistent = True, contentType = ''application/json'', deliveryTag = 7\<rparr>"
  let ?a = "JObj [(''action'', JStr ''login''), (''userId'', JStr ''alice123'')]"
  have h: "parse_content (content ?m) = Inr ?a"
    by (simp add: json_eval)
  have fa: "fst (processAction AnalyticsConsumer ?a) = Normal"
    by (simp add: processAction_def template_def ToPropertyKey_def ToString_def GetV_def
        nullish_def Let_def)
  have fn: "fst (sendNotifications NotificationConsumer ?a) = Throw TypeError"
    by (simp add: sendNotifications_def sendLoginAlert_def template_def ToString_def GetV_def
        nullish_def Let_def)
  from C2_ack_only_after_handler_returns [OF h, of AnalyticsConsumer NotificationConsumer]
  show ?thesis using h fa fn by simp
qed

section \<open>C3: compliance flags\<close>

text \<open>
  Claim C3: \<open>getComplianceFlags\<close> depends on the event's \<open>action\<close> field only, and
  returns \<open>LOGGED, SECURITY_EVENT\<close> for \<open>login\<close>, \<open>LOGGED, FINANCIAL_RECORD\<close> for
  \<open>purchase\<close>, \<open>LOGGED, PII_CHANGE, GDPR\<close> for \<open>profile_update\<close> and \<open>LOGGED\<close> alone for
  every other kind (as the array the code builds, in this order).
\<close>

theorem C3_compliance_flags_by_kind:
  assumes "GetV action ''action'' = Inr kind"
  shows "getComplianceFlags action =
           Inr (if kind = JStr ''login'' then [''LOGGED'', ''SECURITY_EVENT'']
                else if kind = JStr ''purchase'' then [''LOGGED'', ''FINANCIAL_RECORD'']
                else if kind = JStr ''profile_update'' then [''LOGGED'', ''PII_CHANGE'', ''GDPR'']
                else [''LOGGED''])
         \<and> (\<forall>other. GetV other ''action'' = Inr kind \<longrightarrow>
                getComplianceFlags other = getComplianceFlags action)"
  using assms by (simp add: getComplianceFlags_def Let_def)

theorem C3_compliance_flags_by_kind_witness:
  "GetV (JObj [(''action'', JStr ''profile_update''), (''userId'', JStr ''alice123'')]) ''action''
     = Inr (JStr ''profile_update'')
   \<and> getComplianceFlags (JObj [(''action'', JStr ''profile_update''), (''userId'', JStr ''alice123'')])
     = Inr [''LOGGED'', ''PII_CHANGE'', ''GDPR'']
   \<and> GetV (JObj [(''action'', JStr ''profile_update''), (''userId'', JStr ''bob456'')]) ''action''
     = Inr (JStr ''profile_update'')
   \<and> getComplianceFlags (JObj [(''action'', JStr ''profile_update''), (''userId'', JStr ''bob456'')])
     = getComplianceFlags (JObj [(''action'', JStr ''profile_update''), (''userId'', JStr ''alice123'')])"
proof -
  let ?a = "JObj [(''action'', JStr ''profile_update''), (''userId'', JStr ''alice123'')]"
  let ?b = "JObj [(''action'', JStr ''profile_update''), (''userId'', JStr ''bob456'')]"
  have h: "GetV ?a ''action'' = Inr (JStr ''profile_update'')"
    by (simp add: GetV_def nullish_def)
  have h': "GetV ?b ''action'' = Inr (JStr ''profile_update'')"
    by (simp add: GetV_def nullish_def)
  from C3_compliance_flags_by_kind [OF h] h h' show ?thesis by simp
qed

section \<open>C4: what the cache invalidator clears\<close>

text \<open>
  Each completed invalidation call adds one to the counter, whatever the event and
  whether or not the handler completes.
\<close>

lemma invalidateUserCache_counts:
  "\<exists>calls. cleared (snd (invalidateUserCache st u)) = cleared st @ calls \<and>
     invalidated (snd (invalidateUserCache st u)) = invalidated st + length calls"
  by (simp add: invalidateUserCache_def split: sum.splits)

lemma invalidateProductCache_counts:
  "\<exists>calls. cleared (snd (invalidateProductCache st p)) = cleared st @ calls \<and>
     invalidated (snd (invalidateProductCache st p)) = invalidated st + length calls"
  by (simp add: invalidateProductCache_def split: sum.splits)

lemma invalidateCache_counts:
  "\<exists>calls. cleared (snd (invalidateCache st action)) = cleared st @ calls \<and>
     invalidated (snd (invalidateCache st action)) = invalidated st + length calls"
proof -
  have none: "\<exists>calls. cleared st = cleared st @ calls \<and> invalidated st = invalidated st + length calls"
    by simp
  have purchase: "\<And>u. \<exists>calls.
      cleared (snd (case invalidateUserCache st u of
                          (Throw e, st1) \<Rightarrow> (Throw e, st1)
                        | (Normal, st1) \<Rightarrow>
                            (case get_path action [''data'', ''productId''] of
                                 Inl e \<Rightarrow> (Throw e, st1)
                               | Inr p \<Rightarrow> invalidateProductCache st1 p))) = cleared st @ calls \<and>
      invalidated (snd (case invalidateUserCache st u of
                          (Throw e, st1) \<Rightarrow> (Throw e, st1)
                        | (Normal, st1) \<Rightarrow>
                            (case get_path action [''data'', ''productId''] of
                                 Inl e \<Rightarrow> (Throw e, st1)
                               | Inr p \<Rightarrow> invalidateProductCache st1 p))) = invalidated st + length calls"
  proof -
    fix u
    obtain c s where r: "invalidateUserCache st u = (c, s)" by (cases "invalidateUserCache st u")
    from invalidateUserCache_counts [of st u] r obtain calls1 where
      c1: "cleared s = cleared st @ calls1" and i1: "invalidated s = invalidated st + length calls1"
      by auto
    show "\<exists>calls.
      cleared (snd (case invalidateUserCache st u of
                          (Throw e, st1) \<Rightarrow> (Throw e, st1)
                        | (Normal, st1) \<Rightarrow>
                            (case get_path action [''data'', ''productId''] of
                                 Inl e \<Rightarrow> (Throw e, st1)
                               | Inr p \<Rightarrow> invalidateProductCache st1 p))) = cleared st @ calls \<and>
      invalidated (snd (case invalidateUserCache st u of
                          (Throw e, st1) \<Rightarrow> (Throw e, st1)
                        | (Normal, st1) \<Rightarrow>
                            (case get_path action [''data'', ''productId''] of
                                 Inl e \<Rightarrow> (Throw e, st1)
                               | Inr p \<Rightarrow> invalidateProductCache st1 p))) = invalidated st + length calls"
    proof (cases c)
      case (Throw e)
      then show ?thesis using c1 i1 by (simp add: r)
    next
      case Normal
      show ?thesis
      proof (cases "get_path action [''data'', ''productId'']")
        case (Inl e)
        then show ?thesis using Normal c1 i1 by (simp add: r)
      next
        case (Inr p)
        from invalidateProductCache_counts [of s p] obtain calls2 where
          "cleared (snd (invalidateProductCache s p)) = cleared s @ calls2"
          "invalidated (snd (invalidateProductCache s p)) = invalidated s + length calls2"
          by auto
        then have "cleared (snd (invalidateProductCache s p)) = cleared st @ (calls1 @ calls2) \<and>
            invalidated (snd (invalidateProductCache s p)) = invalidated st + length (calls1 @ calls2)"
          using c1 i1 by simp
        then show ?thesis using Normal Inr unfolding r by (simp only: prod.case completion.case sum.case) blast
      qed
    qed
  qed
  show ?thesis
    using none purchase invalidateUserCache_counts [of st]
    by (simp add: invalidateCache_def split: sum.splits)
qed


text \<open>
  Claim C4, as the code has it. A \<open>login\<close> event clears nothing and adds one to
  \<open>skipped\<close>. A \<open>profile_update\<close> event clears the user cache only. A \<open>purchase\<close>
  event clears the user cache and then always calls the product invalidation with
  \<open>data.productId\<close>, which is \<open>undefined\<close> when the field is missing: with a payload
  that is not \<open>null\<close> or absent it does not throw and counts two invalidations; with a
  payload that is \<open>null\<close> or absent it throws a \<open>TypeError\<close> after the user cache was
  cleared and counted. \<open>invalidated\<close> grows by one for each call made. An id that
  cannot be printed makes its invalidation throw before it counts.
\<close>

theorem C4_invalidateCache_by_kind:
  assumes "GetV action ''action'' = Inr kind" and "GetV action ''userId'' = Inr u"
  shows
    "(kind = JStr ''login'' \<longrightarrow>
        invalidateCache st action = (Normal, st\<lparr>skipped := skipped st + 1\<rparr>))
     \<and>
     (kind = JStr ''profile_update'' \<longrightarrow>
        invalidateCache st action =
          (if printable u
           then (Normal,
                 st\<lparr>invalidated := invalidated st + 1, cleared := cleared st @ [UserCache u]\<rparr>)
           else (Throw TypeError, st)))
     \<and>
     (kind = JStr ''purchase'' \<and> \<not> printable u \<longrightarrow>
        invalidateCache st action = (Throw TypeError, st))
     \<and>
     (kind = JStr ''purchase'' \<and> printable u \<longrightarrow>
        (\<forall>d. GetV action ''data'' = Inr d \<longrightarrow>
           (nullish d \<longrightarrow>
              invalidateCache st action =
                (Throw TypeError,
                 st\<lparr>invalidated := invalidated st + 1,
                    cleared := cleared st @ [UserCache u]\<rparr>))
           \<and>
           (\<forall>p. GetV d ''productId'' = Inr p \<longrightarrow>
              invalidateCache st action =
                (if printable p
                 then (Normal,
                       st\<lparr>invalidated := invalidated st + 2,
                          cleared := cleared st @ [UserCache u, ProductCache p]\<rparr>)
                 else (Throw TypeError,
                       st\<lparr>invalidated := invalidated st + 1,
                          cleared := cleared st @ [UserCache u]\<rparr>)))
           \<and>
           (\<forall>kvs. d = JObj kvs \<and> map_of kvs ''productId'' = None \<longrightarrow>
              invalidateCache st action =
                (Normal,
                 st\<lparr>invalidated := invalidated st + 2,
                    cleared := cleared st @ [UserCache u, ProductCache JUndefined]\<rparr>))))
     \<and>
     (\<exists>calls. cleared (snd (invalidateCache st action)) = cleared st @ calls \<and>
        invalidated (snd (invalidateCache st action)) = invalidated st + length calls)"
proof -
  have login: "kind = JStr ''login'' \<longrightarrow>
        invalidateCache st action = (Normal, st\<lparr>skipped := skipped st + 1\<rparr>)"
    using assms by (simp add: invalidateCache_def template_def ToString_def)
  have profile: "kind = JStr ''profile_update'' \<longrightarrow>
        invalidateCache st action =
          (if printable u
           then (Normal,
                 st\<lparr>invalidated := invalidated st + 1, cleared := cleared st @ [UserCache u]\<rparr>)
           else (Throw TypeError, st))"
    using assms
    by (simp add: invalidateCache_def invalidateUserCache_def template_def ToString_def)
  have unprintable: "kind = JStr ''purchase'' \<and> \<not> printable u \<longrightarrow>
        invalidateCache st action = (Throw TypeError, st)"
    using assms
    by (simp add: invalidateCache_def invalidateUserCache_def template_def ToString_def)
  have purchase: "kind = JStr ''purchase'' \<and> printable u \<longrightarrow>
        (\<forall>d. GetV action ''data'' = Inr d \<longrightarrow>
           (nullish d \<longrightarrow>
              invalidateCache st action =
                (Throw TypeError,
                 st\<lparr>invalidated := invalidated st + 1,
                    cleared := cleared st @ [UserCache u]\<rparr>))
           \<and>
           (\<forall>p. GetV d ''productId'' = Inr p \<longrightarrow>
              invalidateCache st action =
                (if printable p
                 then (Normal,
                       st\<lparr>invalidated := invalidated st + 2,
                          cleared := cleared st @ [UserCache u, ProductCache p]\<rparr>)
                 else (Throw TypeError,
                       st\<lparr>invalidated := invalidated st + 1,
                          cleared := cleared st @ [UserCache u]\<rparr>)))
           \<and>
           (\<forall>kvs. d = JObj kvs \<and> map_of kvs ''productId'' = None \<longrightarrow>
              invalidateCache st action =
                (Normal,
                 st\<lparr>invalidated := invalidated st + 2,
                    cleared := cleared st @ [UserCache u, ProductCache JUndefined]\<rparr>)))"
  proof (intro impI allI)
    fix d
    assume k: "kind = JStr ''purchase'' \<and> printable u" and d: "GetV action ''data'' = Inr d"
    from k have kind: "kind = JStr ''purchase''" and pu: "printable u" by blast+
    have line: "template action [''action''] = Inr ''purchase''"
      using assms(1) kind by (simp add: template_def ToString_def)
    have first: "invalidateUserCache st u =
        (Normal, st\<lparr>invalidated := invalidated st + 1, cleared := cleared st @ [UserCache u]\<rparr>)"
      using pu by (simp add: invalidateUserCache_def ToString_def)
    have step: "invalidateCache st action =
        (case get_path action [''data'', ''productId''] of
           Inl e \<Rightarrow> (Throw e, st\<lparr>invalidated := invalidated st + 1,
                                  cleared := cleared st @ [UserCache u]\<rparr>)
         | Inr p \<Rightarrow> invalidateProductCache
                     (st\<lparr>invalidated := invalidated st + 1,
                        cleared := cleared st @ [UserCache u]\<rparr>) p)"
      using assms kind
      by (simp add: invalidateCache_def line first del: get_path.simps split: sum.splits)
    have null: "nullish d \<longrightarrow>
              invalidateCache st action =
                (Throw TypeError,
                 st\<lparr>invalidated := invalidated st + 1,
                    cleared := cleared st @ [UserCache u]\<rparr>)"
    proof
      assume "nullish d"
      then have "get_path action [''data'', ''productId''] = Inl TypeError"
        using d by (simp add: GetV_def)
      then show "invalidateCache st action =
                (Throw TypeError,
                 st\<lparr>invalidated := invalidated st + 1,
                    cleared := cleared st @ [UserCache u]\<rparr>)"
        by (simp add: step del: get_path.simps)
    qed
    have present: "\<forall>p. GetV d ''productId'' = Inr p \<longrightarrow>
              invalidateCache st action =
                (if printable p
                 then (Normal,
                       st\<lparr>invalidated := invalidated st + 2,
                          cleared := cleared st @ [UserCache u, ProductCache p]\<rparr>)
                 else (Throw TypeError,
                       st\<lparr>invalidated := invalidated st + 1,
                          cleared := cleared st @ [UserCache u]\<rparr>))"
    proof (intro allI impI)
      fix p assume p: "GetV d ''productId'' = Inr p"
      have "get_path action [''data'', ''productId''] = Inr p"
        using d p by simp
      then show "invalidateCache st action =
                (if printable p
                 then (Normal,
                       st\<lparr>invalidated := invalidated st + 2,
                          cleared := cleared st @ [UserCache u, ProductCache p]\<rparr>)
                 else (Throw TypeError,
                       st\<lparr>invalidated := invalidated st + 1,
                          cleared := cleared st @ [UserCache u]\<rparr>))"
        by (simp add: step invalidateProductCache_def ToString_def del: get_path.simps)
    qed
    have missing: "\<forall>kvs. d = JObj kvs \<and> map_of kvs ''productId'' = None \<longrightarrow>
              invalidateCache st action =
                (Normal,
                 st\<lparr>invalidated := invalidated st + 2,
                    cleared := cleared st @ [UserCache u, ProductCache JUndefined]\<rparr>)"
    proof (intro allI impI)
      fix kvs assume m: "d = JObj kvs \<and> map_of kvs ''productId'' = None"
      then have "GetV d ''productId'' = Inr JUndefined" by (simp add: GetV_def nullish_def)
      with present show "invalidateCache st action =
                (Normal,
                 st\<lparr>invalidated := invalidated st + 2,
                    cleared := cleared st @ [UserCache u, ProductCache JUndefined]\<rparr>)"
        by simp
    qed
    from null present missing
    show "(nullish d \<longrightarrow>
              invalidateCache st action =
                (Throw TypeError,
                 st\<lparr>invalidated := invalidated st + 1,
                    cleared := cleared st @ [UserCache u]\<rparr>))
           \<and>
           (\<forall>p. GetV d ''productId'' = Inr p \<longrightarrow>
              invalidateCache st action =
                (if printable p
                 then (Normal,
                       st\<lparr>invalidated := invalidated st + 2,
                          cleared := cleared st @ [UserCache u, ProductCache p]\<rparr>)
                 else (Throw TypeError,
                       st\<lparr>invalidated := invalidated st + 1,
                          cleared := cleared st @ [UserCache u]\<rparr>)))
           \<and>
           (\<forall>kvs. d = JObj kvs \<and> map_of kvs ''productId'' = None \<longrightarrow>
              invalidateCache st action =
                (Normal,
                 st\<lparr>invalidated := invalidated st + 2,
                    cleared := cleared st @ [UserCache u, ProductCache JUndefined]\<rparr>))"
      by (intro conjI)
  qed
  from login profile unprintable purchase invalidateCache_counts [of st action]
  show ?thesis by (intro conjI)
qed


theorem C4_invalidateCache_by_kind_witness:
  "GetV (JObj [(''action'', JStr ''purchase''), (''userId'', JStr ''bob456''),
               (''data'', JObj [(''productId'', JStr ''LAPTOP-001'')])]) ''action''
     = Inr (JStr ''purchase'')
   \<and> GetV (JObj [(''action'', JStr ''purchase''), (''userId'', JStr ''bob456''),
               (''data'', JObj [(''productId'', JStr ''LAPTOP-001'')])]) ''userId''
     = Inr (JStr ''bob456'')
   \<and> GetV (JObj [(''action'', JStr ''purchase''), (''userId'', JStr ''bob456''),
               (''data'', JObj [(''productId'', JStr ''LAPTOP-001'')])]) ''data''
     = Inr (JObj [(''productId'', JStr ''LAPTOP-001'')])
   \<and> GetV (JObj [(''productId'', JStr ''LAPTOP-001'')]) ''productId'' = Inr (JStr ''LAPTOP-001'')
   \<and> printable (JStr ''bob456'') \<and> printable (JStr ''LAPTOP-001'')
   \<and> invalidateCache CacheInvalidator
       (JObj [(''action'', JStr ''purchase''), (''userId'', JStr ''bob456''),
              (''data'', JObj [(''productId'', JStr ''LAPTOP-001'')])])
     = (Normal,
        \<lparr>unacked = [], invalidated = 2, skipped = 0,
         cleared = [UserCache (JStr ''bob456''), ProductCache (JStr ''LAPTOP-001'')]\<rparr>)
   \<and> GetV (JObj [(''action'', JStr ''purchase''), (''userId'', JStr ''bob456'')]) ''action''
     = Inr (JStr ''purchase'')
   \<and> GetV (JObj [(''action'', JStr ''purchase''), (''userId'', JStr ''bob456'')]) ''userId''
     = Inr (JStr ''bob456'')
   \<and> GetV (JObj [(''action'', JStr ''purchase''), (''userId'', JStr ''bob456'')]) ''data''
     = Inr JUndefined
   \<and> nullish JUndefined
   \<and> invalidateCache CacheInvalidator
       (JObj [(''action'', JStr ''purchase''), (''userId'', JStr ''bob456'')])
     = (Throw TypeError,
        \<lparr>unacked = [], invalidated = 1, skipped = 0,
         cleared = [UserCache (JStr ''bob456'')]\<rparr>)"
proof -
  let ?a = "JObj [(''action'', JStr ''purchase''), (''userId'', JStr ''bob456''),
               (''data'', JObj [(''productId'', JStr ''LAPTOP-001'')])]"
  let ?b = "JObj [(''action'', JStr ''purchase''), (''userId'', JStr ''bob456'')]"
  have h1: "GetV ?a ''action'' = Inr (JStr ''purchase'')" by (simp add: GetV_def nullish_def)
  have h2: "GetV ?a ''userId'' = Inr (JStr ''bob456'')" by (simp add: GetV_def nullish_def)
  have h3: "GetV ?a ''data'' = Inr (JObj [(''productId'', JStr ''LAPTOP-001'')])"
    by (simp add: GetV_def nullish_def)
  have h4: "GetV (JObj [(''productId'', JStr ''LAPTOP-001'')]) ''productId''
              = Inr (JStr ''LAPTOP-001'')"
    by (simp add: GetV_def nullish_def)
  have pk: "JStr ''purchase'' = JStr ''purchase'' \<and> printable (JStr ''bob456'')" by simp
  note whole = C4_invalidateCache_by_kind [OF h1 h2, of CacheInvalidator]
  note buy = whole [THEN conjunct2, THEN conjunct2, THEN conjunct2, THEN conjunct1, THEN mp, OF pk,
      THEN spec, THEN mp, OF h3]
  from buy [THEN conjunct2, THEN conjunct1, THEN spec, THEN mp, OF h4]
  have one: "invalidateCache CacheInvalidator ?a =
          (Normal,
           \<lparr>unacked = [], invalidated = 2, skipped = 0,
            cleared = [UserCache (JStr ''bob456''), ProductCache (JStr ''LAPTOP-001'')]\<rparr>)"
    by (simp add: CacheInvalidator_def)
  have g1: "GetV ?b ''action'' = Inr (JStr ''purchase'')" by (simp add: GetV_def nullish_def)
  have g2: "GetV ?b ''userId'' = Inr (JStr ''bob456'')" by (simp add: GetV_def nullish_def)
  have g3: "GetV ?b ''data'' = Inr JUndefined" by (simp add: GetV_def nullish_def)
  have n: "nullish JUndefined" by (simp add: nullish_def)
  note whole' = C4_invalidateCache_by_kind [OF g1 g2, of CacheInvalidator]
  note gone = whole' [THEN conjunct2, THEN conjunct2, THEN conjunct2, THEN conjunct1, THEN mp,
      OF pk, THEN spec, THEN mp, OF g3]
  from gone [THEN conjunct1, THEN mp, OF n]
  have two: "invalidateCache CacheInvalidator ?b =
          (Throw TypeError,
           \<lparr>unacked = [], invalidated = 1, skipped = 0,
            cleared = [UserCache (JStr ''bob456'')]\<rparr>)"
    by (simp add: CacheInvalidator_def)
  have p1: "printable (JStr ''bob456'')" and p2: "printable (JStr ''LAPTOP-001'')" by simp_all
  show ?thesis
    by (intro conjI) (fact h1 h2 h3 h4 p1 p2 one g1 g2 g3 n two)+
qed

text \<open>
  Claim C4 as stated says a purchase without \<open>productId\<close> clears the user cache only.
  The code makes the product call all the same, with the key \<open>undefined\<close>, and counts
  two invalidations.
\<close>

theorem C4_purchase_without_productId_counterexample:
  "invalidateCache CacheInvalidator
     (JObj [(''action'', JStr ''purchase''), (''userId'', JStr ''bob456''),
            (''timestamp'', JStr ''2025-11-12T10:30:00.000Z''),
            (''data'', JObj [(''amount'', JNum (Finite ''1299.99''))])])
   = (Normal,
      \<lparr>unacked = [], invalidated = 2, skipped = 0,
       cleared = [UserCache (JStr ''bob456''), ProductCache JUndefined]\<rparr>)
   \<and>
   cleared (snd (invalidateCache CacheInvalidator
     (JObj [(''action'', JStr ''purchase''), (''userId'', JStr ''bob456''),
            (''timestamp'', JStr ''2025-11-12T10:30:00.000Z''),
            (''data'', JObj [(''amount'', JNum (Finite ''1299.99''))])])))
   \<noteq> [UserCache (JStr ''bob456'')]"
  by (simp add: invalidateCache_def invalidateUserCache_def invalidateProductCache_def
      CacheInvalidator_def template_def ToString_def GetV_def nullish_def Let_def)

section \<open>C5: the analytics counters\<close>

text \<open>
  For an event whose kind prints as a key other than \<open>total\<close>: the total grows by one,
  and the counter of the kind by one when the key is \<open>login\<close>, \<open>purchase\<close> or
  \<open>profile_update\<close>.
\<close>

lemma processAction_counts:
  assumes "template action [''action''] = Inr key" and "key \<noteq> ''total''"
  shows "stats (snd (processAction st action)) =
           (if key = ''login'' then (stats st)\<lparr>login := login (stats st) + 1\<rparr>
            else if key = ''purchase'' then (stats st)\<lparr>purchase := purchase (stats st) + 1\<rparr>
            else if key = ''profile_update''
              then (stats st)\<lparr>profile_update := profile_update (stats st) + 1\<rparr>
            else stats st)
           \<lparr>total_count := total_count (stats st) + 1\<rparr>"
proof -
  from assms(1) obtain kind where
    k: "GetV action ''action'' = Inr kind" and t: "ToString kind = Inr key"
    by (auto simp: template_def split: sum.splits)
  show ?thesis
    using assms k t
    by (simp add: processAction_def ToPropertyKey_def hasOwnProperty_def increment_def Let_def
        split: sum.splits)
qed

lemma processAction_total_key:
  assumes "template action [''action''] = Inr ''total''"
  shows "stats (snd (processAction st action)) =
           (stats st)\<lparr>total_count := total_count (stats st) + 2\<rparr>"
proof -
  from assms(1) obtain kind where
    k: "GetV action ''action'' = Inr kind" and t: "ToString kind = Inr ''total''"
    by (auto simp: template_def split: sum.splits)
  show ?thesis
    using assms k t
    by (simp add: processAction_def ToPropertyKey_def hasOwnProperty_def increment_def Let_def
        split: sum.splits)
qed

text \<open>
  Claim C5 says the total grows by exactly one for every event. An event of kind
  \<open>total\<close> names the total counter itself: \<open>hasOwnProperty\<close> holds, the counter is
  incremented as the counter of the kind and once more as the total.
\<close>

theorem C5_total_kind_counted_twice:
  "processAction AnalyticsConsumer
     (JObj [(''action'', JStr ''total''), (''userId'', JStr ''alice123''),
            (''timestamp'', JStr ''2025-11-12T10:30:00.000Z''), (''data'', JObj [])])
   = (Normal,
      \<lparr>unacked = [],
       stats = \<lparr>login = 0, purchase = 0, profile_update = 0, total_count = 2\<rparr>\<rparr>)"
  by (simp add: processAction_def AnalyticsConsumer_def template_def GetV_def nullish_def
      ToPropertyKey_def ToString_def hasOwnProperty_def increment_def Let_def)

section \<open>C8: log identifiers\<close>

text \<open>The decimal digits of a number determine it and contain no hyphen.\<close>

lemma digit_cases:
  "d < 10 \<Longrightarrow> d = 0 \<or> d = 1 \<or> d = 2 \<or> d = 3 \<or> d = 4 \<or> d = 5 \<or> d = 6 \<or> d = 7 \<or> d = 8 \<or> d = (9::nat)"
  by arith

lemma digit_char_code: "d < 10 \<Longrightarrow> (of_char (digit_char d) :: nat) = 48 + d"
proof -
  assume "d < 10"
  from digit_cases [OF this] show ?thesis
    by (elim disjE) (simp_all add: digit_char_def)
qed

lemma digit_char_inj: "d < 10 \<Longrightarrow> d' < 10 \<Longrightarrow> digit_char d = digit_char d' \<Longrightarrow> d = d'"
proof -
  assume d: "d < 10" and d': "d' < 10" and eq: "digit_char d = digit_char d'"
  from eq have "(of_char (digit_char d) :: nat) = of_char (digit_char d')" by simp
  then show "d = d'" by (simp add: digit_char_code [OF d] digit_char_code [OF d'])
qed

lemma digit_char_not_dash: "d < 10 \<Longrightarrow> digit_char d \<noteq> CHR ''-''"
proof
  assume d: "d < 10" and eq: "digit_char d = CHR ''-''"
  from eq have "(of_char (digit_char d) :: nat) = of_char CHR ''-''" by simp
  then show False by (simp add: digit_char_code [OF d])
qed

lemma decimal_nonempty: "decimal n \<noteq> []"
  by (subst decimal.simps) simp

lemma decimal_no_dash: "CHR ''-'' \<notin> set (decimal n)"
proof (induction n rule: decimal.induct)
  case (1 n)
  show ?case
  proof (cases "n < 10")
    case True
    then show ?thesis using digit_char_not_dash [of n] by (subst decimal.simps) auto
  next
    case False
    have "n mod 10 < 10" by simp
    then have "digit_char (n mod 10) \<noteq> CHR ''-''" by (rule digit_char_not_dash)
    with False "1.IH" show ?thesis by (subst decimal.simps) auto
  qed
qed

lemma decimal_small: "n < 10 \<Longrightarrow> decimal n = [digit_char n]"
  by (subst decimal.simps) simp

lemma decimal_large:
  "\<not> n < 10 \<Longrightarrow> decimal n = decimal (n div 10) @ [digit_char (n mod 10)]"
  by (subst decimal.simps) simp

lemma decimal_inj: "decimal m = decimal n \<Longrightarrow> m = n"
proof (induction m arbitrary: n rule: decimal.induct)
  case (1 m)
  note eq = "1.prems"
  show ?case
  proof (cases "m < 10")
    case m: True
    show ?thesis
    proof (cases "n < 10")
      case True
      from eq have "[digit_char m] = [digit_char n]"
        unfolding decimal_small [OF m] decimal_small [OF True] .
      then have "digit_char m = digit_char n" by simp
      with m True show ?thesis by (rule digit_char_inj)
    next
      case False
      from eq have "[digit_char m] = decimal (n div 10) @ [digit_char (n mod 10)]"
        unfolding decimal_small [OF m] decimal_large [OF False] .
      then have "decimal (n div 10) = []" by simp
      then show ?thesis using decimal_nonempty by blast
    qed
  next
    case m: False
    show ?thesis
    proof (cases "n < 10")
      case True
      from eq have "decimal (m div 10) @ [digit_char (m mod 10)] = [digit_char n]"
        unfolding decimal_large [OF m] decimal_small [OF True] .
      then have "decimal (m div 10) = []" by simp
      then show ?thesis using decimal_nonempty by blast
    next
      case False
      from eq have
        "decimal (m div 10) @ [digit_char (m mod 10)] = decimal (n div 10) @ [digit_char (n mod 10)]"
        unfolding decimal_large [OF m] decimal_large [OF False] .
      then have pre: "decimal (m div 10) = decimal (n div 10)"
        and lst: "digit_char (m mod 10) = digit_char (n mod 10)"
        by simp_all
      from "1.IH" [OF m pre] have q: "m div 10 = n div 10" .
      have "m mod 10 < 10" "n mod 10 < 10" by simp_all
      then have r: "m mod 10 = n mod 10" using lst by (rule digit_char_inj)
      have "m = 10 * (m div 10) + m mod 10" by simp
      also have "\<dots> = 10 * (n div 10) + n mod 10" by (simp only: q r)
      also have "\<dots> = n" by simp
      finally show ?thesis .
    qed
  qed
qed

lemma split_at_first:
  "x \<notin> set xs \<Longrightarrow> x \<notin> set ys \<Longrightarrow> xs @ x # r = ys @ x # r' \<Longrightarrow> xs = ys \<and> r = r'"
proof (induction xs arbitrary: ys)
  case Nil
  then show ?case by (cases ys) auto
next
  case (Cons a xs)
  then show ?case by (cases ys) auto
qed

text \<open>
  Claim C8, as the code has it: two calls of \<open>generateLogId\<close> return the same
  identifier exactly when they read the same clock value and the nine characters taken
  from their random strings coincide; otherwise the identifiers differ.
\<close>

theorem C8_logId_equal_iff:
  "generateLogId e1 = generateLogId e2 \<longleftrightarrow>
     clock e1 = clock e2 \<and> substr (random36 e1) 2 9 = substr (random36 e2) 2 9"
proof
  assume "generateLogId e1 = generateLogId e2"
  then have eq: "decimal (clock e1) @ CHR ''-'' # substr (random36 e1) 2 9
           = decimal (clock e2) @ CHR ''-'' # substr (random36 e2) 2 9"
    unfolding generateLogId_def by simp
  have "decimal (clock e1) = decimal (clock e2) \<and>
        substr (random36 e1) 2 9 = substr (random36 e2) 2 9"
    by (rule split_at_first [OF decimal_no_dash decimal_no_dash eq])
  then show "clock e1 = clock e2 \<and> substr (random36 e1) 2 9 = substr (random36 e2) 2 9"
    using decimal_inj [of "clock e1" "clock e2"] by simp
next
  assume "clock e1 = clock e2 \<and> substr (random36 e1) 2 9 = substr (random36 e2) 2 9"
  then show "generateLogId e1 = generateLogId e2" unfolding generateLogId_def by simp
qed

theorem C8_logId_equal_iff_witness:
  "generateLogId \<lparr>clock = 1731407400000, random36 = ''0.4fzyo82mvyr'',
                    read_fault = None, write_fault = NoFault\<rparr>
     \<noteq> generateLogId \<lparr>clock = 1731407400001, random36 = ''0.4fzyo82mvyr'',
                    read_fault = None, write_fault = NoFault\<rparr>"
  using C8_logId_equal_iff
    [of "\<lparr>clock = 1731407400000, random36 = ''0.4fzyo82mvyr'',
          read_fault = None, write_fault = NoFault\<rparr>"
        "\<lparr>clock = 1731407400001, random36 = ''0.4fzyo82mvyr'',
          read_fault = None, write_fault = NoFault\<rparr>"]
  by simp

text \<open>
  Claim C8 as stated, for any two distinct calls, fails: two calls within the same
  millisecond whose random strings differ only after the eleventh character return the
  same identifier.
\<close>

theorem C8_same_millisecond_counterexample:
  "generateLogId \<lparr>clock = 1731407400000, random36 = ''0.4fzyo82mvyr'',
                    read_fault = None, write_fault = NoFault\<rparr>
     = ''AUDIT-1731407400000-4fzyo82mv''
   \<and>
   generateLogId \<lparr>clock = 1731407400000, random36 = ''0.4fzyo82mvzk'',
                    read_fault = None, write_fault = NoFault\<rparr>
     = ''AUDIT-1731407400000-4fzyo82mv''"
  by (simp add: generateLogId_def substr_def decimal.simps digit_char_def)

section \<open>The audit log file\<close>

text \<open>
  Entries made of values JSON carries are written and read back unchanged; any other
  appended entry is read back as \<open>stored_entry\<close> of it.
\<close>

lemma stored_entry_safe: "json_safe entry \<Longrightarrow> stored_entry entry = entry"
  using stringify_parse_safe [of entry] by (auto simp: stored_entry_def undefined_to_null_def)

lemma stored_entries_safe:
  "list_all json_safe xs \<Longrightarrow> map JSON_parse (map undefined_to_null (map JSON_stringify xs)) = xs"
proof (induction xs)
  case Nil
  then show ?case by simp
next
  case (Cons x xs)
  then have "stored_entry x = x" by (simp add: stored_entry_safe)
  with Cons show ?case by (simp add: stored_entry_def)
qed

text \<open>When the log that was read is an array, the body of the \<open>try\<close> is the write.\<close>

lemma writeToFile_try_array:
  assumes "(case read_log_file env (audit_log st) of Inl e \<Rightarrow> JArr [] | Inr v \<Rightarrow> v) = JArr xs"
  shows "writeToFile_try env st entry =
           (case fs_writeFile env (audit_log st)
                   (JsonArr (map undefined_to_null (map JSON_stringify (xs @ [entry])))) of
              (c, f) \<Rightarrow> (c, st\<lparr>audit_log := f\<rparr>))"
  using assms by (simp add: writeToFile_try_def Array_push_def Let_def)

lemma writeToFile_array_written:
  assumes "(case read_log_file env (audit_log st) of Inl e \<Rightarrow> JArr [] | Inr v \<Rightarrow> v) = JArr xs"
    and "write_fault env = NoFault"
  shows "writeToFile env st entry =
           (Normal, st\<lparr>audit_log :=
              Holds (JsonText (JsonArr (map undefined_to_null (map JSON_stringify (xs @ [entry])))))\<rparr>)"
  using assms(2) by (simp add: writeToFile_def writeToFile_try_array [OF assms(1)] fs_writeFile_def)

lemma reread_written:
  assumes "list_all json_safe xs" and "read_fault env' = None"
  shows "read_log_file env'
           (Holds (JsonText (JsonArr (map undefined_to_null (map JSON_stringify (xs @ [entry]))))))
         = Inr (JArr (xs @ [stored_entry entry]))"
  using assms stored_entries_safe [OF assms(1)]
  by (simp add: read_log_file_def fs_readFile_def parse_content_def stored_entry_def)

text \<open>
  Where the append works: the file is absent or was read as the collection \<open>old\<close> of
  such entries, and the write succeeds. A later read then yields \<open>old\<close> in the same
  order, followed by the appended entry as JSON stores it.
\<close>

lemma append_then_reread:
  assumes "write_fault env = NoFault"
    and "read_log_file env (audit_log st) = Inr (JArr old) \<or> (audit_log st = Absent \<and> old = [])"
    and "list_all json_safe old"
    and "read_fault env' = None"
  shows "read_log_file env' (audit_log (snd (writeToFile env st entry)))
           = Inr (JArr (old @ [stored_entry entry]))
         \<and> (json_safe entry \<longrightarrow> stored_entry entry = entry)"
proof -
  have logs: "(case read_log_file env (audit_log st) of Inl e \<Rightarrow> JArr [] | Inr v \<Rightarrow> v) = JArr old"
    using assms(2) by (auto simp: read_log_file_def fs_readFile_def)
  note safe = assms(3)
  have f: "audit_log (snd (writeToFile env st entry)) =
      Holds (JsonText (JsonArr (map undefined_to_null (map JSON_stringify (old @ [entry])))))"
    unfolding writeToFile_array_written [OF logs assms(1)] by simp
  have "read_log_file env' (audit_log (snd (writeToFile env st entry)))
          = Inr (JArr (old @ [stored_entry entry]))"
    unfolding f by (rule reread_written [OF safe assms(4)])
  then show ?thesis by (simp add: stored_entry_safe)
qed


section \<open>C6: absent file, failed write\<close>

text \<open>
  Claim C6, as far as the code goes: an absent file counts as the empty collection, so
  the first append leaves a file holding the one entry; and a write that fails before
  the file is touched leaves the file, and what a later read observes, as it was.
\<close>

theorem C6_absent_file_and_write_failing_first:
  "(audit_log st = Absent \<and> write_fault env = NoFault \<longrightarrow>
      (\<forall>env'. read_fault env' = None \<longrightarrow>
         read_log_file env' (audit_log (snd (writeToFile env st entry)))
           = Inr (JArr [stored_entry entry])))
   \<and>
   (\<forall>e. write_fault env = FailsBeforeWrite e \<longrightarrow>
      audit_log (snd (writeToFile env st entry)) = audit_log st \<and>
      (\<forall>env'. read_log_file env' (audit_log (snd (writeToFile env st entry)))
               = read_log_file env' (audit_log st)))"
proof -
  have absent: "audit_log st = Absent \<and> write_fault env = NoFault \<longrightarrow>
      (\<forall>env'. read_fault env' = None \<longrightarrow>
         read_log_file env' (audit_log (snd (writeToFile env st entry)))
           = Inr (JArr [stored_entry entry]))"
  proof (intro impI allI)
    fix env' :: io
    assume a: "audit_log st = Absent \<and> write_fault env = NoFault"
    assume r: "read_fault env' = None"
    have logs: "(case read_log_file env (audit_log st) of Inl e \<Rightarrow> JArr [] | Inr v \<Rightarrow> v) = JArr []"
      using a by (simp add: read_log_file_def fs_readFile_def)
    have w: "write_fault env = NoFault" using a by simp
    have f: "audit_log (snd (writeToFile env st entry)) =
        Holds (JsonText (JsonArr (map undefined_to_null (map JSON_stringify ([] @ [entry])))))"
      unfolding writeToFile_array_written [OF logs w] by simp
    have "list_all json_safe ([] :: jsval list)" by simp
    from reread_written [OF this r, of entry]
    show "read_log_file env' (audit_log (snd (writeToFile env st entry)))
            = Inr (JArr [stored_entry entry])"
      unfolding f by simp
  qed
  have untouched: "\<forall>e. write_fault env = FailsBeforeWrite e \<longrightarrow>
      audit_log (snd (writeToFile env st entry)) = audit_log st"
    by (auto simp: writeToFile_def writeToFile_try_def fs_writeFile_def Let_def
        split: sum.splits option.splits)
  from absent untouched show ?thesis by simp
qed


theorem C6_absent_file_and_write_failing_first_witness:
  "audit_log (AuditConsumer Absent) = Absent
   \<and> write_fault \<lparr>clock = 1731407400000, random36 = ''0.4fzyo82mvyr'',
                    read_fault = None, write_fault = NoFault\<rparr> = NoFault
   \<and> read_fault \<lparr>clock = 1731407400000, random36 = ''0.4fzyo82mvyr'',
                   read_fault = None, write_fault = NoFault\<rparr> = None
   \<and> read_log_file
         \<lparr>clock = 1731407400000, random36 = ''0.4fzyo82mvyr'',
          read_fault = None, write_fault = NoFault\<rparr>
         (audit_log (snd (writeToFile
            \<lparr>clock = 1731407400000, random36 = ''0.4fzyo82mvyr'',
             read_fault = None, write_fault = NoFault\<rparr>
            (AuditConsumer Absent)
            (JObj [(''logId'', JStr ''AUDIT-1731407400000-4fzyo82mv''),
                   (''action'', JStr ''purchase'')]))))
       = Inr (JArr [JObj [(''logId'', JStr ''AUDIT-1731407400000-4fzyo82mv''),
                          (''action'', JStr ''purchase'')]])
   \<and> write_fault \<lparr>clock = 1731407400000, random36 = ''0.4fzyo82mvyr'',
                    read_fault = None, write_fault = FailsBeforeWrite ENOSPC\<rparr>
       = FailsBeforeWrite ENOSPC
   \<and> audit_log (snd (writeToFile
         \<lparr>clock = 1731407400000, random36 = ''0.4fzyo82mvyr'',
          read_fault = None, write_fault = FailsBeforeWrite ENOSPC\<rparr>
         (AuditConsumer (Holds (JsonText (JsonArr [JsonObj [(''action'', JsonStr ''login'')]]))))
         (JObj [(''logId'', JStr ''AUDIT-1731407400000-4fzyo82mv''),
                (''action'', JStr ''purchase'')])))
       = Holds (JsonText (JsonArr [JsonObj [(''action'', JsonStr ''login'')]]))"
proof -
  let ?ok = "\<lparr>clock = 1731407400000, random36 = ''0.4fzyo82mvyr'',
               read_fault = None, write_fault = NoFault\<rparr>"
  let ?bad = "\<lparr>clock = 1731407400000, random36 = ''0.4fzyo82mvyr'',
               read_fault = None, write_fault = FailsBeforeWrite ENOSPC\<rparr>"
  let ?entry = "JObj [(''logId'', JStr ''AUDIT-1731407400000-4fzyo82mv''),
                      (''action'', JStr ''purchase'')]"
  let ?f = "Holds (JsonText (JsonArr [JsonObj [(''action'', JsonStr ''login'')]]))"
  have a: "audit_log (AuditConsumer Absent) = Absent" by (simp add: AuditConsumer_def)
  have w: "write_fault ?ok = NoFault" by simp
  have r: "read_fault ?ok = None" by simp
  have safe: "stored_entry ?entry = ?entry" by (rule stored_entry_safe) (simp add: json_eval)
  from C6_absent_file_and_write_failing_first [of "AuditConsumer Absent" ?ok ?entry] a w r
  have one: "read_log_file ?ok (audit_log (snd (writeToFile ?ok (AuditConsumer Absent) ?entry)))
          = Inr (JArr [stored_entry ?entry])"
    by blast
  have b: "write_fault ?bad = FailsBeforeWrite ENOSPC" by simp
  from C6_absent_file_and_write_failing_first [of "AuditConsumer ?f" ?bad ?entry] b
  have "audit_log (snd (writeToFile ?bad (AuditConsumer ?f) ?entry)) = audit_log (AuditConsumer ?f)"
    by blast
  then have two: "audit_log (snd (writeToFile ?bad (AuditConsumer ?f) ?entry)) = ?f"
    by (simp add: AuditConsumer_def)
  from a w r one two b show ?thesis unfolding safe by simp
qed

text \<open>
  Claim C6 as stated, never losing appended entries on a failed or partial write,
  fails: \<open>fs.writeFile\<close> overwrites the file in place, so a write that fails after
  the file was truncated leaves bytes that do not parse, and a later read no longer
  observes the collection that was there.
\<close>

theorem C6_partial_write_counterexample:
  "read_log_file
     \<lparr>clock = 1731407400000, random36 = ''0.4fzyo82mvyr'', read_fault = None, write_fault = NoFault\<rparr>
     (audit_log (AuditConsumer (Holds (JsonText (JsonArr [JsonObj [(''action'', JsonStr ''login'')]])))))
   = Inr (JArr [JObj [(''action'', JStr ''login'')]])
   \<and>
   read_log_file
     \<lparr>clock = 1731407400000, random36 = ''0.4fzyo82mvyr'', read_fault = None, write_fault = NoFault\<rparr>
     (audit_log (snd (writeToFile
        \<lparr>clock = 1731407400000, random36 = ''0.4fzyo82mvyr'',
         read_fault = None, write_fault = FailsMidWrite ENOSPC\<rparr>
        (AuditConsumer (Holds (JsonText (JsonArr [JsonObj [(''action'', JsonStr ''login'')]]))))
        (JObj [(''logId'', JStr ''AUDIT-1731407400000-4fzyo82mv''),
               (''action'', JStr ''purchase'')]))))
   = Inl SyntaxError"
  by (simp add: writeToFile_def writeToFile_try_def read_log_file_def fs_readFile_def
      fs_writeFile_def Array_push_def AuditConsumer_def json_eval Let_def)

section \<open>C7: append, then read again\<close>

text \<open>
  Claim C7 says that for any existing collection, appending an entry with
  \<open>writeToFile\<close> and reading the store again yields the collection followed by the
  entry. The inner \<open>catch\<close>, whose comment reads "File doesn't exist, start fresh", takes
  every failure of the read for an absent file: when the file holds a collection and
  \<open>fs.readFile\<close> fails, the write goes ahead with the new entry alone, and a later
  read finds that entry and nothing of the collection.
\<close>

theorem C7_read_failure_loses_collection:
  "read_log_file
     \<lparr>clock = 1731407400000, random36 = ''0.4fzyo82mvyr'', read_fault = None, write_fault = NoFault\<rparr>
     (audit_log (AuditConsumer (Holds (JsonText (JsonArr [JsonObj [(''action'', JsonStr ''login'')]])))))
   = Inr (JArr [JObj [(''action'', JStr ''login'')]])
   \<and>
   read_log_file
     \<lparr>clock = 1731407400000, random36 = ''0.4fzyo82mvyr'', read_fault = None, write_fault = NoFault\<rparr>
     (audit_log (snd (writeToFile
        \<lparr>clock = 1731407400000, random36 = ''0.4fzyo82mvyr'',
         read_fault = Some EIO, write_fault = NoFault\<rparr>
        (AuditConsumer (Holds (JsonText (JsonArr [JsonObj [(''action'', JsonStr ''login'')]]))))
        (JObj [(''logId'', JStr ''AUDIT-1731407400000-4fzyo82mv''),
               (''action'', JStr ''purchase'')]))))
   = Inr (JArr [JObj [(''logId'', JStr ''AUDIT-1731407400000-4fzyo82mv''),
                      (''action'', JStr ''purchase'')]])
   \<and>
   read_log_file
     \<lparr>clock = 1731407400000, random36 = ''0.4fzyo82mvyr'', read_fault = None, write_fault = NoFault\<rparr>
     (audit_log (snd (writeToFile
        \<lparr>clock = 1731407400000, random36 = ''0.4fzyo82mvyr'',
         read_fault = Some EIO, write_fault = NoFault\<rparr>
        (AuditConsumer (Holds (JsonText (JsonArr [JsonObj [(''action'', JsonStr ''login'')]]))))
        (JObj [(''logId'', JStr ''AUDIT-1731407400000-4fzyo82mv''),
               (''action'', JStr ''purchase'')]))))
   \<noteq> Inr (JArr [JObj [(''action'', JStr ''login'')],
                   JObj [(''logId'', JStr ''AUDIT-1731407400000-4fzyo82mv''),
                         (''action'', JStr ''purchase'')]])"
  by (simp add: writeToFile_def writeToFile_try_def read_log_file_def fs_readFile_def
      fs_writeFile_def Array_push_def AuditConsumer_def json_eval Let_def)

section \<open>C9: what \<open>writeToFile\<close> catches and logs\<close>

text \<open>
  \<open>writeToFile\<close> throws nothing, a failure of the write is logged as a warning, and
  \<open>logAction\<close> completes for every message whose \<open>action\<close> field can be read and
  printed. A failure of the read, whatever its cause, is not logged.
\<close>

lemma writeToFile_Normal: "fst (writeToFile env st entry) = Normal"
  by (simp add: writeToFile_def split: prod.splits completion.splits)

lemma writeToFile_write_fault_logged:
  assumes "\<forall>v. read_log_file env (audit_log st) = Inr v \<longrightarrow> (\<exists>xs. v = JArr xs)"
    and "write_fault env = FailsBeforeWrite e \<or> write_fault env = FailsMidWrite e"
  shows "warnings (snd (writeToFile env st entry)) = warnings st @ [e]"
proof -
  obtain xs where
    logs: "(case read_log_file env (audit_log st) of Inl e \<Rightarrow> JArr [] | Inr v \<Rightarrow> v) = JArr xs"
    using assms(1) by (cases "read_log_file env (audit_log st)") auto
  show ?thesis
    using assms(2)
    by (auto simp: writeToFile_def writeToFile_try_array [OF logs] fs_writeFile_def)
qed

lemma writeToFile_read_failure_silent:
  assumes "read_log_file env (audit_log st) = Inl e" and "write_fault env = NoFault"
  shows "warnings (snd (writeToFile env st entry)) = warnings st"
proof -
  have logs: "(case read_log_file env (audit_log st) of Inl e \<Rightarrow> JArr [] | Inr v \<Rightarrow> v) = JArr []"
    using assms(1) by simp
  show ?thesis by (simp add: writeToFile_array_written [OF logs assms(2)])
qed

lemma GetV_defined: "\<not> nullish v \<Longrightarrow> \<exists>w. GetV v k = Inr w"
  by (simp add: GetV_def split: jsval.splits option.splits)

lemma template_not_nullish: "template v (k # ks) = Inr line \<Longrightarrow> \<not> nullish v"
  by (auto simp: template_def GetV_def split: sum.splits if_splits)

lemma logAction_Normal:
  "template action [''action''] = Inr line \<Longrightarrow> fst (logAction env st action) = Normal"
proof -
  assume l: "template action [''action''] = Inr line"
  from template_not_nullish [OF l] have n: "\<not> nullish action" .
  from GetV_defined [OF n] obtain a u t d where
    "GetV action ''action'' = Inr a" "GetV action ''userId'' = Inr u"
    "GetV action ''timestamp'' = Inr t" "GetV action ''data'' = Inr d"
    by metis
  then show ?thesis
    using l by (simp add: logAction_def getComplianceFlags_def Let_def writeToFile_Normal)
qed

text \<open>
  Claim C9 says every persistence failure, a read error included, is caught and logged
  as a warning. The outer \<open>catch\<close> logs; the inner one, whose comment reads "File
  doesn't exist, start fresh", is empty and catches every failure of the read. When the
  file exists and \<open>fs.readFile\<close> fails, \<open>writeToFile\<close> returns normally, logs no
  warning, and has replaced the file by the new entry alone.
\<close>

theorem C9_read_failure_swallowed_silently:
  "read_log_file
     \<lparr>clock = 1731407400000, random36 = ''0.4fzyo82mvyr'', read_fault = Some EIO, write_fault = NoFault\<rparr>
     (audit_log (AuditConsumer (Holds (JsonText (JsonArr [JsonObj [(''action'', JsonStr ''login'')]])))))
   = Inl EIO
   \<and>
   writeToFile
     \<lparr>clock = 1731407400000, random36 = ''0.4fzyo82mvyr'', read_fault = Some EIO, write_fault = NoFault\<rparr>
     (AuditConsumer (Holds (JsonText (JsonArr [JsonObj [(''action'', JsonStr ''login'')]]))))
     (JObj [(''logId'', JStr ''AUDIT-1731407400000-4fzyo82mv''), (''action'', JStr ''purchase'')])
   = (Normal,
      \<lparr>unacked = [],
       audit_log =
         Holds (JsonText (JsonArr [JsonObj [(''logId'', JsonStr ''AUDIT-1731407400000-4fzyo82mv''),
                                            (''action'', JsonStr ''purchase'')]])),
       warnings = []\<rparr>)"
  by (simp add: writeToFile_def writeToFile_try_def read_log_file_def fs_readFile_def
      fs_writeFile_def Array_push_def AuditConsumer_def json_eval Let_def)

end
